theory Spec2Isabelle
  imports Complex_Main
begin

section \<open>Python values and exceptions\<close>

text \<open>
  The values a configuration field can hold: \<open>None\<close>, the scalars of the command line
  and of a JSON snapshot, and lists of them. A float is only ever stored, copied and
  compared with an integer literal, so it is kept as the number it denotes.
\<close>

datatype pyval = PNone | PBool bool | PInt int | PFloat real | PStr string | PList "pyval list"

text \<open>An f-string is kept in parts: its literal text and the values it interpolates.\<close>

datatype fpart = Lit string | Val pyval

type_synonym message = "fpart list"

text \<open>
  The exceptions the modelled functions can raise. A raise is the value \<open>Inl e\<close> of a
  result of type \<open>error + 'a\<close>; a normal return is \<open>Inr\<close>. An exception ends the run
  (spec, section 7), so the state it leaves behind is not kept.
\<close>

datatype error =
    AssertionError message
  | ValueError message
  | KeyError
  | TypeError
  | AttributeError
  | IndexError
  | UnboundLocalError
  | FileNotFoundError message
  | ImportError string
  | OSError

definition bindE :: "error + 'a \<Rightarrow> ('a \<Rightarrow> error + 'b) \<Rightarrow> error + 'b" where
  "bindE m f = (case m of Inl err \<Rightarrow> Inl err | Inr x \<Rightarrow> f x)"

text \<open>\<open>for i in idxs: st = body(i, st)\<close>, stopping at the first exception.\<close>

fun for_loop :: "('i \<Rightarrow> 'st \<Rightarrow> error + 'st) \<Rightarrow> 'i list \<Rightarrow> 'st \<Rightarrow> error + 'st" where
  "for_loop body [] st = Inr st"
| "for_loop body (i # idxs) st = bindE (body i st) (for_loop body idxs)"

text \<open>Python's \<open>str(n)\<close> for an integer: decimal digits, with a minus sign when negative.\<close>

fun str_nat :: "nat \<Rightarrow> string" where
  "str_nat n = (if n < 10 then [''0123456789'' ! n]
                else str_nat (n div 10) @ [''0123456789'' ! (n mod 10)])"

definition str_int :: "int \<Rightarrow> string" where
  "str_int i = (if i < 0 then CHR ''-'' # str_nat (nat (- i)) else str_nat (nat i))"

text \<open>The slice \<open>xs[a:b]\<close> for indices \<open>0 \<le> a\<close> and \<open>0 \<le> b\<close> (empty when \<open>b \<le> a\<close>).\<close>

definition slice :: "'a list \<Rightarrow> nat \<Rightarrow> nat \<Rightarrow> 'a list" where
  "slice xs a b = take (b - a) (drop a xs)"

section \<open>Label-Run Encoder: \<open>_get_labels_str\<close> (utils.py)\<close>

text \<open>
  The loop's local variables. \<open>s\<close> and \<open>e\<close> are unbound until first assigned: reading an
  unbound local raises \<open>UnboundLocalError\<close>.
\<close>

record labels_state =
  s :: "nat option"
  e :: "nat option"
  labels_str :: string

definition read_local :: "nat option \<Rightarrow> error + nat" where
  "read_local v = (case v of None \<Rightarrow> Inl UnboundLocalError | Some n \<Rightarrow> Inr n)"

text \<open>The f-string \<open>f'[-100 * {n}]'\<close>.\<close>

definition marker :: "int \<Rightarrow> string" where
  "marker n = ''[-100 * '' @ str_int n @ '']''"

text \<open>
  One iteration of \<open>for i in range(len(labels))\<close>. The tokenizer is an external
  collaborator: \<open>decode\<close> stands for \<open>tokenizer.decode\<close>.
\<close>

definition labels_body :: "(int list \<Rightarrow> string) \<Rightarrow> int list \<Rightarrow> nat \<Rightarrow> labels_state \<Rightarrow> error + labels_state" where
  "labels_body decode labels i st =
     (if i = 0 then
        (if labels ! i = - 100 then Inr (st\<lparr>s := Some 0\<rparr>) else Inr (st\<lparr>e := Some 0\<rparr>))
      else
        bindE
          (if labels ! i = - 100 \<and> labels ! (i - 1) \<noteq> - 100 then
             (let st1 = st\<lparr>s := Some i\<rparr> in
              bindE (read_local (e st1)) (\<lambda>ev.
              bindE (read_local (s st1)) (\<lambda>sv.
              Inr (st1\<lparr>labels_str := labels_str st1 @ decode (slice labels ev sv)\<rparr>))))
           else Inr st)
          (\<lambda>st2.
           if labels ! i \<noteq> - 100 \<and> labels ! (i - 1) = - 100 then
             (let st3 = st2\<lparr>e := Some i\<rparr> in
              bindE (read_local (e st3)) (\<lambda>ev.
              bindE (read_local (s st3)) (\<lambda>sv.
              Inr (st3\<lparr>labels_str := labels_str st3 @ marker (int ev - int sv)\<rparr>))))
           else Inr st2))"

definition labels_finish :: "(int list \<Rightarrow> string) \<Rightarrow> int list \<Rightarrow> labels_state \<Rightarrow> error + string" where
  "labels_finish decode labels st =
     (if last labels = - 100 then
        bindE (read_local (s st)) (\<lambda>sv.
        Inr (labels_str st @ marker (int (length labels) - int sv)))
      else
        bindE (read_local (e st)) (\<lambda>ev.
        Inr (labels_str st @ decode (drop ev labels))))"

definition get_labels_str :: "(int list \<Rightarrow> string) \<Rightarrow> int list \<Rightarrow> error + string" where
  "get_labels_str decode labels =
     (if length labels = 0 then Inr ''''
      else
        bindE (for_loop (labels_body decode labels) [0..<length labels]
                 \<lparr>s = None, e = None, labels_str = ''''\<rparr>)
              (labels_finish decode labels))"

text \<open>
  The specification's reading: the label sequence is cut into its maximal contiguous
  runs, a masked run keeping its length and a non-masked run its token ids, and every
  run is rendered in order. \<open>push_masked k\<close> puts \<open>k\<close> masked labels in front of a
  run list, joining them to a leading masked run; \<open>push_tokens\<close> does the same for
  token ids.
\<close>

datatype run = Masked nat | Tokens "int list"

fun push_masked :: "nat \<Rightarrow> run list \<Rightarrow> run list" where
  "push_masked k (Masked n # rs) = Masked (k + n) # rs"
| "push_masked k rs = Masked k # rs"

fun push_tokens :: "int list \<Rightarrow> run list \<Rightarrow> run list" where
  "push_tokens ts (Tokens us # rs) = Tokens (ts @ us) # rs"
| "push_tokens ts rs = Tokens ts # rs"

fun label_runs :: "int list \<Rightarrow> run list" where
  "label_runs [] = []"
| "label_runs (x # xs) =
     (if x = - 100 then push_masked 1 (label_runs xs) else push_tokens [x] (label_runs xs))"

fun run_str :: "(int list \<Rightarrow> string) \<Rightarrow> run \<Rightarrow> string" where
  "run_str decode (Masked n) = marker (int n)"
| "run_str decode (Tokens ts) = decode ts"

definition runs_str :: "(int list \<Rightarrow> string) \<Rightarrow> run list \<Rightarrow> string" where
  "runs_str decode rs = concat (map (run_str decode) rs)"

text \<open>What makes a run list the run-length form of a label sequence: each run expands to
  its labels, no run is empty, a token run holds no sentinel, and neighbours differ in kind
  (so every run is maximal).\<close>

fun run_labels :: "run \<Rightarrow> int list" where
  "run_labels (Masked n) = replicate n (- 100)"
| "run_labels (Tokens ts) = ts"

fun run_ok :: "run \<Rightarrow> bool" where
  "run_ok (Masked n) = (0 < n)"
| "run_ok (Tokens ts) = (ts \<noteq> [] \<and> - 100 \<notin> set ts)"

fun is_masked :: "run \<Rightarrow> bool" where
  "is_masked (Masked n) = True"
| "is_masked (Tokens ts) = False"

fun alternating :: "run list \<Rightarrow> bool" where
  "alternating [] = True"
| "alternating [r] = run_ok r"
| "alternating (r # r' # rs) = (run_ok r \<and> is_masked r \<noteq> is_masked r' \<and> alternating (r' # rs))"


text \<open>A small decoder for concrete runs: every token id is written in angle brackets.\<close>

definition demo_decode :: "int list \<Rightarrow> string" where
  "demo_decode ids = concat (map (\<lambda>t. ''<'' @ str_int t @ ''>'') ids)"

section \<open>Context-Window Manager: \<open>limit_history_length\<close> (utils.py)\<close>

text \<open>
  A conversation turn is a (query, response) pair. The template is an external
  collaborator: \<open>template query history\<close> stands for
  \<open>template.encode({'query': query, 'history': history})['input_ids']\<close>.
\<close>

type_synonym History = "(string \<times> string) list"
type_synonym Template = "string \<Rightarrow> History \<Rightarrow> int list"

text \<open>
  Modelled from the spec: \<open>upper_bound\<close> of \<open>swift.utils\<close>, which is not among the
  sources. Section 4.6 describes it as a result-returning binary search over \<open>[lo, hi]\<close>
  for the greatest value whose feasibility predicate holds, the predicate being evaluated
  \<open>O(log n)\<close> times. The predicate is never asked about \<open>lo\<close> itself (the caller's
  predicate asserts that its argument is not 0). An exception of the predicate ends the
  search.
\<close>

function upper_bound :: "nat \<Rightarrow> nat \<Rightarrow> (nat \<Rightarrow> error + bool) \<Rightarrow> error + nat" where
  "upper_bound lo hi cond =
     (if lo < hi then
        (case cond ((lo + hi + 1) div 2) of
           Inl err \<Rightarrow> Inl err
         | Inr ok \<Rightarrow>
             if ok then upper_bound ((lo + hi + 1) div 2) hi cond
             else upper_bound lo ((lo + hi + 1) div 2 - 1) cond)
      else Inr lo)"
  by pat_completeness auto
termination
  by (relation "measure (\<lambda>(lo, hi, cond). hi - lo)") auto

declare upper_bound.simps [simp del]

text \<open>The slice \<open>history[-k:]\<close> for \<open>k > 0\<close>: the last \<open>k\<close> turns, all of them when
  \<open>k\<close> exceeds the length.\<close>

definition last_turns :: "'a list \<Rightarrow> nat \<Rightarrow> 'a list" where
  "last_turns history k = drop (length history - k) history"

text \<open>The inner function \<open>compute_token_length\<close>, with its assertion.\<close>

definition compute_token_length :: "Template \<Rightarrow> string \<Rightarrow> History \<Rightarrow> nat \<Rightarrow> error + nat" where
  "compute_token_length template query history history_length =
     (if history_length = 0 then Inl (AssertionError [])
      else Inr (length (template query (last_turns history history_length))))"

text \<open>\<open>history\<close> is optional (\<open>None\<close> becomes the empty list); \<open>max_length\<close> is any
  integer. The result is the pair \<open>(old_history, history)\<close>.\<close>

definition limit_history_length ::
  "Template \<Rightarrow> string \<Rightarrow> History option \<Rightarrow> int \<Rightarrow> error + (History \<times> History)" where
  "limit_history_length template query history0 max_length =
     (let history = (case history0 of None \<Rightarrow> [] | Some h \<Rightarrow> h) in
      bindE (upper_bound 0 (length history)
               (\<lambda>mid. bindE (compute_token_length template query history mid)
                         (\<lambda>l. Inr (int l \<le> max_length))))
        (\<lambda>history_length.
           Inr (take (length history - history_length) history,
                drop (length history - history_length) history)))"

text \<open>The encoded length of \<open>{query, history}\<close>, the quantity the claims speak about.\<close>

definition encoded_length :: "Template \<Rightarrow> string \<Rightarrow> History \<Rightarrow> int" where
  "encoded_length template query history = int (length (template query history))"

text \<open>The precondition of the claims: the encoded length does not decrease when the
  suffix of the history grows.\<close>

definition nondecreasing :: "Template \<Rightarrow> string \<Rightarrow> History \<Rightarrow> bool" where
  "nondecreasing template query history =
     (\<forall>i j. i \<le> j \<and> j \<le> length history \<longrightarrow>
        encoded_length template query (last_turns history i)
          \<le> encoded_length template query (last_turns history j))"

text \<open>A small template for concrete runs: one token per character of the query and of
  every turn, and two separator tokens per turn.\<close>

definition demo_template :: Template where
  "demo_template query history =
     map (\<lambda>c. int (of_char c)) query
     @ concat (map (\<lambda>(q, r). 1 # map (\<lambda>c. int (of_char c)) q @ 2 # map (\<lambda>c. int (of_char c)) r) history)"

section \<open>Run configurations (argument.py)\<close>

subsection \<open>Objects, the environment and the registry\<close>

text \<open>
  A configuration is an instance of one of the three argument classes. The functions of
  argument.py read and write its attributes by name (\<open>getattr\<close>, \<open>setattr\<close>), with values
  of any type, so an object is its class and its attribute dictionary.
  \<open>RomeArguments\<close> is a subclass of \<open>InferArguments\<close>.
\<close>

datatype pyclass = SftArguments | InferArguments | RomeArguments

record obj =
  class_of :: pyclass
  attrs :: "string \<rightharpoonup> pyval"

definition isinstance_SftArguments :: "obj \<Rightarrow> bool" where
  "isinstance_SftArguments args = (class_of args = SftArguments)"

definition isinstance_InferArguments :: "obj \<Rightarrow> bool" where
  "isinstance_InferArguments args =
     (class_of args = InferArguments \<or> class_of args = RomeArguments)"

definition getattr :: "obj \<Rightarrow> string \<Rightarrow> error + pyval" where
  "getattr args k = (case attrs args k of None \<Rightarrow> Inl AttributeError | Some v \<Rightarrow> Inr v)"

text \<open>\<open>getattr(args, k, None)\<close>.\<close>

definition getattr_default :: "obj \<Rightarrow> string \<Rightarrow> pyval" where
  "getattr_default args k = (case attrs args k of None \<Rightarrow> PNone | Some v \<Rightarrow> v)"

definition setattr :: "obj \<Rightarrow> string \<Rightarrow> pyval \<Rightarrow> obj" where
  "setattr args k v = args\<lparr>attrs := (attrs args)(k \<mapsto> v)\<rparr>"

text \<open>
  What the functions ask of the world outside the program: the hardware
  (\<open>torch.cuda.is_bf16_supported()\<close>), the installed packages (\<open>require_version\<close>), the
  file system (\<open>os.path.exists\<close>, the home directories that \<open>os.path.expanduser\<close> looks
  up, the empty name standing for the current user, \<open>os.getcwd()\<close>, and
  \<open>json.load(open(path))\<close> for a snapshot, a JSON object of scalars and lists), and the
  constant \<open>TemplateType.chatml\<close> of template.py, which is not among the sources.
\<close>

record env =
  is_bf16_supported :: bool
  installed :: "string \<Rightarrow> bool"
  path_exists :: "string \<Rightarrow> bool"
  home_dir :: "string \<Rightarrow> string option"
  cwd :: string
  json_load :: "string \<Rightarrow> error + (string \<rightharpoonup> pyval)"
  TemplateType_chatml :: string

definition require_version :: "env \<Rightarrow> string \<Rightarrow> error + unit" where
  "require_version env pkg = (if installed env pkg then Inr () else Inl (ImportError pkg))"

text \<open>
  The model registry \<open>MODEL_MAPPING\<close> of model.py (not among the sources) is a parameter:
  an association list from model type to the entries the functions read. The key
  \<open>support_flash_attn\<close> may be absent.
\<close>

datatype torch_dtype = float16 | bfloat16 | float32 | other_dtype string

record model_info =
  model_id_or_path :: string
  revision :: pyval
  requires :: "string list"
  torch_dtype :: "torch_dtype option"
  support_flash_attn :: "bool option"

type_synonym registry = "(string \<times> model_info) list"

text \<open>
  Modelled from the spec: the table \<open>dtype_mapping\<close> of model.py, which is not among the
  sources. Section 4.2 names exactly three concrete precisions; the names are the choices
  of the \<open>dtype\<close> field.
\<close>

definition dtype_mapping :: "(torch_dtype \<times> string) list" where
  "dtype_mapping = [(float16, ''fp16''), (bfloat16, ''bf16''), (float32, ''fp32'')]"

definition dtype_mapping_reversed :: "(string \<times> torch_dtype) list" where
  "dtype_mapping_reversed = map (\<lambda>(k, v). (v, k)) dtype_mapping"

subsection \<open>Python operations on values\<close>

text \<open>\<open>v == 'literal'\<close> and \<open>v == n\<close> for an integer literal: numbers compare by value
  across \<open>bool\<close>, \<open>int\<close> and \<open>float\<close>, and nothing else equals a number or a string of
  another type.\<close>

definition py_eq_str :: "pyval \<Rightarrow> string \<Rightarrow> bool" where
  "py_eq_str v lit = (v = PStr lit)"

fun py_eq_int :: "pyval \<Rightarrow> int \<Rightarrow> bool" where
  "py_eq_int (PInt i) n = (i = n)"
| "py_eq_int (PBool b) n = ((if b then 1 else 0) = n)"
| "py_eq_int (PFloat r) n = (r = of_int n)"
| "py_eq_int v n = False"

fun truthy :: "pyval \<Rightarrow> bool" where
  "truthy PNone = False"
| "truthy (PBool b) = b"
| "truthy (PInt i) = (i \<noteq> 0)"
| "truthy (PFloat r) = (r \<noteq> 0)"
| "truthy (PStr str) = (str \<noteq> [])"
| "truthy (PList vs) = (vs \<noteq> [])"

definition startswith :: "string \<Rightarrow> string \<Rightarrow> bool" where
  "startswith str pre = (take (length pre) str = pre)"

fun str_contains :: "string \<Rightarrow> string \<Rightarrow> bool" where
  "str_contains sub [] = (sub = [])"
| "str_contains sub (c # cs) = (startswith (c # cs) sub \<or> str_contains sub cs)"

text \<open>\<open>'literal' in v\<close>: a substring test on a string, membership in a list.\<close>

fun py_contains :: "string \<Rightarrow> pyval \<Rightarrow> error + bool" where
  "py_contains lit (PStr str) = Inr (str_contains lit str)"
| "py_contains lit (PList vs) = Inr (PStr lit \<in> set vs)"
| "py_contains lit v = Inl TypeError"

fun py_len :: "pyval \<Rightarrow> error + nat" where
  "py_len (PStr str) = Inr (length str)"
| "py_len (PList vs) = Inr (length vs)"
| "py_len v = Inl TypeError"

text \<open>\<open>v[0]\<close>.\<close>

fun py_first :: "pyval \<Rightarrow> error + pyval" where
  "py_first (PStr []) = Inl IndexError"
| "py_first (PStr (c # cs)) = Inr (PStr [c])"
| "py_first (PList []) = Inl IndexError"
| "py_first (PList (v # vs)) = Inr v"
| "py_first v = Inl TypeError"

text \<open>\<open>str.split(sep)\<close> for a one-character separator.\<close>

fun split_on :: "char \<Rightarrow> string \<Rightarrow> string list" where
  "split_on sep [] = [[]]"
| "split_on sep (c # cs) =
     (if c = sep then [] # split_on sep cs
      else (case split_on sep cs of [] \<Rightarrow> [[c]] | w # ws \<Rightarrow> (c # w) # ws))"

fun py_split :: "char \<Rightarrow> pyval \<Rightarrow> error + pyval" where
  "py_split sep (PStr str) = Inr (PList (map PStr (split_on sep str)))"
| "py_split sep v = Inl AttributeError"

text \<open>\<open>str.lower()\<close> on the ASCII letters.\<close>

definition lower_char :: "char \<Rightarrow> char" where
  "lower_char c = (let n = (of_char c :: nat) in if 65 \<le> n \<and> n \<le> 90 then char_of (n + 32) else c)"

fun py_lower :: "pyval \<Rightarrow> error + string" where
  "py_lower (PStr str) = Inr (map lower_char str)"
| "py_lower v = Inl AttributeError"

fun py_startswith :: "pyval \<Rightarrow> string \<Rightarrow> error + bool" where
  "py_startswith (PStr str) pre = Inr (startswith str pre)"
| "py_startswith v pre = Inl AttributeError"

text \<open>\<open>d[key]\<close> and \<open>key in d\<close> for a dictionary with string keys: a list is unhashable,
  any other value that is not a string is not a key.\<close>

fun dict_lookup :: "(string \<times> 'a) list \<Rightarrow> pyval \<Rightarrow> error + 'a" where
  "dict_lookup d (PStr k) = (case map_of d k of None \<Rightarrow> Inl KeyError | Some x \<Rightarrow> Inr x)"
| "dict_lookup d (PList vs) = Inl TypeError"
| "dict_lookup d v = Inl KeyError"

fun dict_member :: "(string \<times> 'a) list \<Rightarrow> pyval \<Rightarrow> error + bool" where
  "dict_member d (PStr k) = Inr (map_of d k \<noteq> None)"
| "dict_member d (PList vs) = Inl TypeError"
| "dict_member d v = Inr False"

text \<open>A log record: the level and the message.\<close>

datatype level = INFO | WARNING

type_synonym logrec = "level \<times> message"

subsection \<open>\<open>select_dtype\<close> and \<open>select_bnb\<close>\<close>

definition select_dtype ::
  "env \<Rightarrow> registry \<Rightarrow> obj \<Rightarrow> error + ((torch_dtype \<times> bool \<times> bool) \<times> obj \<times> logrec list)" where
  "select_dtype env MODEL_MAPPING args =
     bindE (getattr args ''dtype'') (\<lambda>dtype0.
     bindE (Inr (if py_eq_str dtype0 ''AUTO'' \<and> \<not> is_bf16_supported env
                 then setattr args ''dtype'' (PStr ''fp16'') else args)) (\<lambda>args1.
     bindE (getattr args1 ''dtype'') (\<lambda>dtype1.
     bindE (if py_eq_str dtype1 ''AUTO'' then
              bindE (getattr args1 ''model_type'') (\<lambda>model_type.
              bindE (py_contains ''int4'' model_type) (\<lambda>int4.
              bindE (if int4 then Inr True else py_contains ''int8'' model_type) (\<lambda>quantized.
              if quantized then
                bindE (dict_lookup MODEL_MAPPING model_type) (\<lambda>model_info.
                case torch_dtype model_info of
                  None \<Rightarrow> Inr args1
                | Some model_torch_dtype \<Rightarrow>
                    (case map_of dtype_mapping model_torch_dtype of
                       None \<Rightarrow> Inl KeyError
                     | Some name \<Rightarrow> Inr (setattr args1 ''dtype'' (PStr name))))
              else Inr args1)))
            else Inr args1) (\<lambda>args2.
     bindE (getattr args2 ''dtype'') (\<lambda>dtype2.
     bindE (Inr (if py_eq_str dtype2 ''AUTO''
                 then setattr args2 ''dtype'' (PStr ''bf16'') else args2)) (\<lambda>args3.
     bindE (getattr args3 ''dtype'') (\<lambda>dtype3.
     bindE (dict_lookup dtype_mapping_reversed dtype3) (\<lambda>torch_dtype0.
     if torch_dtype0 \<noteq> float16 \<and> torch_dtype0 \<noteq> bfloat16 \<and> torch_dtype0 \<noteq> float32
     then Inl (AssertionError [])
     else if torch_dtype0 = float16 then
       bindE (if isinstance_SftArguments args3
              then bindE (getattr args3 ''sft_type'') (\<lambda>sft_type. Inr (py_eq_str sft_type ''full''))
              else Inr False) (\<lambda>full.
       if full
       then Inr ((float32, True, False), args3,
                 [(WARNING, [Lit ''Setting torch_dtype: torch.float32''])])
       else Inr ((torch_dtype0, True, False), args3, []))
     else if torch_dtype0 = bfloat16 then
       Inr ((torch_dtype0, False, True), args3,
            (if \<not> is_bf16_supported env
             then [(WARNING, [Lit ''support_bf16: '', Val (PBool (is_bf16_supported env))])]
             else []))
     else Inr ((torch_dtype0, False, False), args3, [])))))))))"

definition select_bnb :: "env \<Rightarrow> obj \<Rightarrow> error + ((torch_dtype \<times> bool \<times> bool) \<times> obj)" where
  "select_bnb env args =
     bindE (getattr args ''bnb_4bit_comp_dtype'') (\<lambda>comp_dtype0.
     bindE (if py_eq_str comp_dtype0 ''AUTO''
            then bindE (getattr args ''dtype'') (\<lambda>dtype.
                 Inr (setattr args ''bnb_4bit_comp_dtype'' dtype))
            else Inr args) (\<lambda>args1.
     bindE (getattr args1 ''quantization_bit'') (\<lambda>quantization_bit.
     bindE (getattr args1 ''bnb_4bit_comp_dtype'') (\<lambda>comp_dtype.
     bindE (dict_lookup dtype_mapping_reversed comp_dtype) (\<lambda>bnb_4bit_compute_dtype.
     if bnb_4bit_compute_dtype \<noteq> float16 \<and> bnb_4bit_compute_dtype \<noteq> bfloat16
        \<and> bnb_4bit_compute_dtype \<noteq> float32
     then Inl (AssertionError [])
     else if py_eq_int quantization_bit 4 then
       bindE (require_version env ''bitsandbytes'') (\<lambda>_.
       Inr ((bnb_4bit_compute_dtype, True, False), args1))
     else if py_eq_int quantization_bit 8 then
       bindE (require_version env ''bitsandbytes'') (\<lambda>_.
       Inr ((bnb_4bit_compute_dtype, False, True), args1))
     else Inr ((bnb_4bit_compute_dtype, False, False), args1))))))"

subsection \<open>\<open>handle_compatibility\<close>\<close>

text \<open>The function is a sequence of five \<open>if\<close> statements; each is given as a
  function of its own (the two on \<open>template_type\<close> together), and
  \<open>handle_compatibility\<close> runs them in the order of the source.\<close>

definition compat_dataset :: "obj \<Rightarrow> error + obj" where
  "compat_dataset args =
     bindE (getattr args ''dataset'') (\<lambda>dataset.
     bindE (if dataset = PNone then Inr False
            else bindE (py_len dataset) (\<lambda>n.
                 if n \<noteq> 1 then Inr False
                 else bindE (py_first dataset) (\<lambda>first. py_contains '','' first))) (\<lambda>joined.
     if joined
     then bindE (py_first dataset) (\<lambda>first.
          bindE (py_split (CHR '','') first) (\<lambda>names.
          Inr (setattr args ''dataset'' names)))
     else Inr args))"

definition compat_template_type :: "env \<Rightarrow> obj \<Rightarrow> error + obj" where
  "compat_template_type env args =
     bindE (getattr args ''template_type'') (\<lambda>template_type1.
     bindE (Inr (if py_eq_str template_type1 ''chatglm2-generation''
                 then setattr args ''template_type'' (PStr ''chatglm-generation'')
                 else args)) (\<lambda>args1.
     bindE (getattr args1 ''template_type'') (\<lambda>template_type2.
     Inr (if py_eq_str template_type2 ''qwen''
          then setattr args1 ''template_type'' (PStr (TemplateType_chatml env))
          else args1))))"

definition compat_lora_target_modules :: "obj \<Rightarrow> error + obj" where
  "compat_lora_target_modules args =
     (if isinstance_SftArguments args then
        bindE (getattr args ''lora_target_modules'') (\<lambda>lora_target_modules.
        case lora_target_modules of
          PList modules \<Rightarrow>
            Inr (if PStr ''AUTO'' \<in> set modules \<and> length modules = 1
                 then setattr args ''lora_target_modules'' (PList [PStr ''DEFAULT''])
                 else args)
        | _ \<Rightarrow> Inr args)
      else Inr args)"

definition compat_val_dataset_sample :: "obj \<Rightarrow> error + obj" where
  "compat_val_dataset_sample args =
     (if isinstance_InferArguments args then
        bindE (getattr args ''show_dataset_sample'') (\<lambda>show_dataset_sample.
        if \<not> py_eq_int show_dataset_sample 10 then
          bindE (getattr args ''val_dataset_sample'') (\<lambda>val_dataset_sample.
          Inr (if py_eq_int val_dataset_sample 10
               then setattr args ''val_dataset_sample'' show_dataset_sample
               else args))
        else Inr args)
      else Inr args)"

definition handle_compatibility :: "env \<Rightarrow> obj \<Rightarrow> error + obj" where
  "handle_compatibility env args =
     bindE (compat_dataset args) (\<lambda>args1.
     bindE (compat_template_type env args1) (\<lambda>args2.
     bindE (compat_lora_target_modules args2) compat_val_dataset_sample))"

subsection \<open>\<open>set_model_type\<close>\<close>

text \<open>The dictionary comprehension \<open>{v['model_id_or_path'].lower(): k for k, v in
  MODEL_MAPPING.items()}\<close>: of two entries with the same lower-case path the later one
  stays, so the list is reversed for \<open>map_of\<close>.\<close>

definition model_mapping_reversed :: "registry \<Rightarrow> (string \<times> string) list" where
  "model_mapping_reversed MODEL_MAPPING =
     rev (map (\<lambda>(k, v). (map lower_char (model_id_or_path v), k)) MODEL_MAPPING)"

text \<open>\<open>MODEL_MAPPING[model_type]['revision'] = r\<close>.\<close>

definition set_revision :: "registry \<Rightarrow> string \<Rightarrow> pyval \<Rightarrow> registry" where
  "set_revision MODEL_MAPPING model_type r =
     map (\<lambda>(k, v). if k = model_type then (k, v\<lparr>revision := r\<rparr>) else (k, v)) MODEL_MAPPING"

definition not_registered_msg :: "env \<Rightarrow> string \<Rightarrow> message" where
  "not_registered_msg env path =
     [Lit ''`model_id_or_path`: '', Lit [CHR 0x27], Val (PStr path), Lit [CHR 0x27],
      Lit '' is not registered.'']
     @ (if path_exists env path
        then [Lit '' Please use `model_cache_dir` to specify the local cache path for the model.'']
        else [])"

definition set_model_type :: "env \<Rightarrow> registry \<Rightarrow> obj \<Rightarrow> error + (obj \<times> registry)" where
  "set_model_type env MODEL_MAPPING args =
     bindE (getattr args ''model_type'') (\<lambda>model_type0.
     bindE (if model_type0 = PNone then Inr True
            else bindE (getattr args ''model_id_or_path'') (\<lambda>p. Inr (p = PNone))) (\<lambda>one_absent.
     if \<not> one_absent then Inl (AssertionError [])
     else
     bindE (getattr args ''model_id_or_path'') (\<lambda>model_id_or_path0.
     bindE (case model_id_or_path0 of
              PNone \<Rightarrow> Inr args
            | PStr path \<Rightarrow>
                (case map_of (model_mapping_reversed MODEL_MAPPING) (map lower_char path) of
                   None \<Rightarrow> Inl (ValueError (not_registered_msg env path))
                 | Some k \<Rightarrow> Inr (setattr args ''model_type'' (PStr k)))
            | _ \<Rightarrow> Inl AttributeError) (\<lambda>args1.
     bindE (getattr args1 ''model_type'') (\<lambda>model_type.
     if model_type = PNone then
       Inl (ValueError [Lit ''please setting `--model_type xxx` or `--model_id_or_path xxx`''])
     else
     bindE (dict_member MODEL_MAPPING model_type) (\<lambda>registered.
     if \<not> registered then
       Inl (ValueError [Lit ''model_type: '', Val model_type, Lit '' is not registered.''])
     else
     bindE (dict_lookup MODEL_MAPPING model_type) (\<lambda>model_info.
     bindE (getattr args1 ''model_revision'') (\<lambda>model_revision.
     bindE (Inr (if model_revision = PNone
                 then (setattr args1 ''model_revision'' (revision model_info), MODEL_MAPPING)
                 else (args1, (case model_type of
                                 PStr k \<Rightarrow> set_revision MODEL_MAPPING k model_revision
                               | _ \<Rightarrow> MODEL_MAPPING)))) (\<lambda>(args2, MODEL_MAPPING2).
     bindE (for_loop (\<lambda>require u. require_version env require) (requires model_info) ()) (\<lambda>_.
     Inr (setattr args2 ''model_id_or_path'' (PStr (model_id_or_path model_info)),
          MODEL_MAPPING2)))))))))))"

subsection \<open>\<open>load_from_ckpt_dir\<close>\<close>

text \<open>\<open>os.path.join(a, b)\<close> of posixpath for a string \<open>b\<close>; a first argument that is not a
  string raises \<open>TypeError\<close>.\<close>

definition posix_join :: "string \<Rightarrow> string \<Rightarrow> string" where
  "posix_join a b =
     (if startswith b ''/'' then b
      else if a = [] \<or> last a = CHR ''/'' then a @ b
      else a @ ''/'' @ b)"

fun os_path_join :: "pyval \<Rightarrow> string \<Rightarrow> error + string" where
  "os_path_join (PStr a) b = Inr (posix_join a b)"
| "os_path_join v b = Inl TypeError"

definition imported_keys :: "pyval \<Rightarrow> string list" where
  "imported_keys eval_human =
     [''model_type'', ''model_id_or_path'', ''model_revision'', ''model_cache_dir'',
      ''sft_type'', ''template_type'', ''dtype'', ''system'', ''quantization_bit'',
      ''bnb_4bit_comp_dtype'', ''bnb_4bit_quant_type'', ''bnb_4bit_use_double_quant'']
     @ (if \<not> truthy eval_human
        then [''dataset'', ''dataset_seed'', ''dataset_test_ratio'',
              ''check_dataset_strategy'', ''custom_train_dataset_path'',
              ''custom_val_dataset_path'']
        else [])"

text \<open>The fields whose own value, when not \<open>None\<close>, is kept.\<close>

definition kept_keys :: "string list" where
  "kept_keys = [''model_cache_dir'', ''dataset'', ''custom_train_dataset_path'',
                ''custom_val_dataset_path'']"

text \<open>\<open>sft_args.get(key)\<close>.\<close>

definition dict_get :: "(string \<rightharpoonup> pyval) \<Rightarrow> string \<Rightarrow> pyval" where
  "dict_get d k = (case d k of None \<Rightarrow> PNone | Some v \<Rightarrow> v)"

text \<open>One iteration of \<open>for key in imported_keys\<close>. The attribute is read only when the
  key is one of the kept ones (\<open>and\<close> evaluates its right side only then).\<close>

definition import_key :: "(string \<rightharpoonup> pyval) \<Rightarrow> string \<Rightarrow> obj \<Rightarrow> error + obj" where
  "import_key sft_args key args =
     bindE (if key \<in> set kept_keys
            then bindE (getattr args key) (\<lambda>v. Inr (v \<noteq> PNone))
            else Inr False) (\<lambda>keep.
     if keep then Inr args else Inr (setattr args key (dict_get sft_args key)))"

definition load_from_ckpt_dir :: "env \<Rightarrow> obj \<Rightarrow> error + (obj \<times> logrec list)" where
  "load_from_ckpt_dir env args =
     bindE (getattr args ''ckpt_dir'') (\<lambda>ckpt_dir.
     bindE (os_path_join ckpt_dir ''sft_args.json'') (\<lambda>sft_args_path.
     if \<not> path_exists env sft_args_path then
       Inr (args, [(INFO, [Val (PStr sft_args_path), Lit '' not found''])])
     else
       bindE (json_load env sft_args_path) (\<lambda>sft_args.
       bindE (getattr args ''eval_human'') (\<lambda>eval_human.
       bindE (for_loop (import_key sft_args) (imported_keys eval_human) args) (\<lambda>args'.
       Inr (args', []))))))"

subsection \<open>\<open>_check_path\<close> and \<open>handle_path\<close>\<close>

text \<open>
  \<open>os.path.expanduser\<close> and \<open>os.path.abspath\<close> as posixpath defines them. The user
  name after the tilde runs up to the first slash; an unknown user leaves the path as it
  is.
\<close>

definition rstrip_slash :: "string \<Rightarrow> string" where
  "rstrip_slash p = rev (dropWhile (\<lambda>c. c = CHR ''/'') (rev p))"

definition expanduser :: "env \<Rightarrow> string \<Rightarrow> string" where
  "expanduser env path =
     (if \<not> startswith path ''~'' then path
      else
        (let name = takeWhile (\<lambda>c. c \<noteq> CHR ''/'') (tl path);
             rest = dropWhile (\<lambda>c. c \<noteq> CHR ''/'') (tl path)
         in case home_dir env name of
              None \<Rightarrow> path
            | Some userhome \<Rightarrow>
                (let r = rstrip_slash userhome @ rest in if r = [] then ''/'' else r)))"

text \<open>One iteration of the loop of \<open>normpath\<close> over the components.\<close>

definition normpath_step :: "nat \<Rightarrow> string list \<Rightarrow> string \<Rightarrow> string list" where
  "normpath_step initial_slashes new_comps component =
     (if component = [] \<or> component = ''.'' then new_comps
      else if component \<noteq> ''..'' \<or> (initial_slashes = 0 \<and> new_comps = [])
              \<or> (new_comps \<noteq> [] \<and> last new_comps = ''..'')
      then new_comps @ [component]
      else if new_comps \<noteq> [] then butlast new_comps
      else new_comps)"

text \<open>\<open>'/'.join(comps)\<close>.\<close>

fun sep_join :: "string list \<Rightarrow> string" where
  "sep_join [] = []"
| "sep_join [c] = c"
| "sep_join (c # cs) = c @ ''/'' @ sep_join cs"

definition normpath :: "string \<Rightarrow> string" where
  "normpath path =
     (if path = [] then ''.''
      else
        (let initial_slashes =
               (if startswith path ''/''
                then (if startswith path ''//'' \<and> \<not> startswith path ''///'' then 2 else 1)
                else 0);
             comps = foldl (normpath_step initial_slashes) [] (split_on (CHR ''/'') path);
             joined = replicate initial_slashes (CHR ''/'') @ sep_join comps
         in if joined = [] then ''.'' else joined))"

definition abspath :: "env \<Rightarrow> string \<Rightarrow> string" where
  "abspath env path =
     normpath (if \<not> startswith path ''/'' then posix_join (cwd env) path else path)"

text \<open>A component that \<open>normpath\<close> keeps in an absolute path: not empty, not a dot
  entry, and without a separator.\<close>

definition clean :: "string \<Rightarrow> bool" where
  "clean c = (c \<noteq> [] \<and> c \<noteq> ''.'' \<and> c \<noteq> ''..'' \<and> CHR ''/'' \<notin> set c)"

text \<open>\<open>_check_path\<close>: a string is expanded, made absolute and, for the fields to check,
  must exist; a list is treated element by element; any other value is returned as it is.\<close>

fun check_path :: "env \<Rightarrow> string \<Rightarrow> string list \<Rightarrow> pyval \<Rightarrow> error + pyval"
  and check_path_list :: "env \<Rightarrow> string \<Rightarrow> string list \<Rightarrow> pyval list \<Rightarrow> error + pyval list" where
  "check_path env k check_exist_path_set (PStr str) =
     (let value = abspath env (expanduser env str) in
      if k \<in> set check_exist_path_set \<and> \<not> path_exists env value
      then Inl (FileNotFoundError [Lit ''`'', Val (PStr k), Lit ''`: '', Lit [CHR 0x27],
                                  Val (PStr value), Lit [CHR 0x27]])
      else Inr (PStr value))"
| "check_path env k check_exist_path_set (PList vs) =
     bindE (check_path_list env k check_exist_path_set vs) (\<lambda>res. Inr (PList res))"
| "check_path env k check_exist_path_set v = Inr v"
| "check_path_list env k check_exist_path_set [] = Inr []"
| "check_path_list env k check_exist_path_set (v # vs) =
     bindE (check_path env k check_exist_path_set v) (\<lambda>r.
     bindE (check_path_list env k check_exist_path_set vs) (\<lambda>rs. Inr (r # rs)))"

text \<open>One iteration of \<open>for k in check_exist_path + other_path\<close>.\<close>

definition handle_path_key :: "env \<Rightarrow> string list \<Rightarrow> string \<Rightarrow> obj \<Rightarrow> error + obj" where
  "handle_path_key env check_exist_path_set k args =
     (let value = getattr_default args k in
      if value = PNone then Inr args
      else bindE (check_path env k check_exist_path_set value) (\<lambda>value'.
           Inr (setattr args k value')))"

definition handle_path :: "env \<Rightarrow> obj \<Rightarrow> error + obj" where
  "handle_path env args =
     bindE (getattr args ''model_id_or_path'') (\<lambda>model_id_or_path.
     bindE (if model_id_or_path = PNone then Inr False
            else bindE (py_startswith model_id_or_path ''~'') (\<lambda>tilde.
                 if tilde then Inr True else py_startswith model_id_or_path ''/'')) (\<lambda>is_local.
     let check_exist_path =
           [''model_cache_dir'', ''ckpt_dir'', ''resume_from_checkpoint'',
            ''deepspeed_config_path'', ''custom_train_dataset_path'',
            ''custom_val_dataset_path'']
           @ (if is_local then [''model_id_or_path''] else []);
         other_path = [''output_dir'', ''logging_dir'']
     in for_loop (handle_path_key env check_exist_path) (check_exist_path @ other_path) args))"

text \<open>A field is settled when its iteration of the loop of \<open>handle_path\<close> leaves the
  configuration as it is: the field is absent or \<open>None\<close>, or \<open>_check_path\<close> accepts its
  value and returns it unchanged.\<close>

definition settled :: "env \<Rightarrow> string list \<Rightarrow> obj \<Rightarrow> string \<Rightarrow> bool" where
  "settled env check_exist_path_set args k =
     (case attrs args k of None \<Rightarrow> True
      | Some v \<Rightarrow> v = PNone \<or> check_path env k check_exist_path_set v = Inr v)"

text \<open>\<open>handle_compatibility(args); handle_path(args)\<close>, the first two statements of
  every \<open>__post_init__\<close>.\<close>

definition normalize :: "env \<Rightarrow> obj \<Rightarrow> error + obj" where
  "normalize env args = bindE (handle_compatibility env args) (handle_path env)"

subsection \<open>Constructors and a concrete environment\<close>

text \<open>The field defaults of the dataclass \<open>InferArguments\<close>, and the object that its
  generated \<open>__init__\<close> builds from keyword arguments, before \<open>__post_init__\<close> runs.\<close>

definition InferArguments_defaults :: "(string \<times> pyval) list" where
  "InferArguments_defaults =
     [(''model_type'', PNone), (''model_id_or_path'', PNone), (''model_revision'', PNone),
      (''model_cache_dir'', PNone), (''sft_type'', PStr ''lora''),
      (''template_type'', PStr ''AUTO''), (''ckpt_dir'', PNone),
      (''load_args_from_ckpt_dir'', PBool True), (''eval_human'', PBool False),
      (''seed'', PInt 42), (''dtype'', PStr ''AUTO''), (''dataset'', PNone),
      (''dataset_seed'', PInt 42), (''dataset_test_ratio'', PFloat 0.01),
      (''val_dataset_sample'', PInt 10), (''save_result'', PBool True),
      (''system'', PStr ''you are a helpful assistant!''), (''max_length'', PInt 2048),
      (''truncation_strategy'', PStr ''truncation_left''),
      (''check_dataset_strategy'', PStr ''none''),
      (''custom_train_dataset_path'', PNone), (''custom_val_dataset_path'', PNone),
      (''quantization_bit'', PInt 0), (''bnb_4bit_comp_dtype'', PStr ''AUTO''),
      (''bnb_4bit_quant_type'', PStr ''nf4''), (''bnb_4bit_use_double_quant'', PBool True),
      (''max_new_tokens'', PInt 2048), (''do_sample'', PBool True),
      (''temperature'', PFloat 0.3), (''top_k'', PInt 20), (''top_p'', PFloat 0.7),
      (''repetition_penalty'', PFloat 1.05), (''use_flash_attn'', PNone),
      (''ignore_args_error'', PBool False), (''stream'', PBool True),
      (''merge_lora_and_save'', PBool False), (''overwrite_generation_config'', PBool False),
      (''show_dataset_sample'', PInt 10)]"

definition InferArguments_init :: "(string \<times> pyval) list \<Rightarrow> obj" where
  "InferArguments_init kwargs =
     \<lparr>class_of = InferArguments, attrs = map_of (kwargs @ InferArguments_defaults)\<rparr>"

text \<open>A machine with bf16 support and every package installed; the home directory of the
  current user is \<open>/home/u\<close>, the working directory \<open>/work\<close>; one checkpoint directory
  holds a snapshot, another holds none.\<close>

definition demo_snapshot :: "string \<rightharpoonup> pyval" where
  "demo_snapshot =
     map_of [(''model_type'', PStr ''qwen-7b-chat''), (''sft_type'', PStr ''lora''),
             (''template_type'', PStr ''chatml''), (''system'', PStr ''be brief''),
             (''quantization_bit'', PInt 4), (''dataset'', PList [PStr ''alpaca-en'']),
             (''dataset_seed'', PInt 7), (''model_cache_dir'', PNone)]"

definition demo_env :: env where
  "demo_env =
     \<lparr>is_bf16_supported = True,
      installed = (\<lambda>pkg. True),
      path_exists = (\<lambda>p. p \<in> set [''/work'', ''/work/ckpt'', ''/work/ckpt/sft_args.json'',
                                      ''/work/empty'', ''/home/u'', ''/home/u/cache'']),
      home_dir = (\<lambda>name. if name = [] then Some ''/home/u'' else None),
      cwd = ''/work'',
      json_load = (\<lambda>p. if p = ''/work/ckpt/sft_args.json'' then Inr demo_snapshot
                         else Inl OSError),
      TemplateType_chatml = ''chatml''\<rparr>"

definition demo_registry :: registry where
  "demo_registry =
     [(''qwen-7b-chat'',
       \<lparr>model_id_or_path = ''qwen/Qwen-7B-Chat'', revision = PStr ''v1.1.7'',
        requires = [], torch_dtype = None, support_flash_attn = Some True\<rparr>)]"

section \<open>Verification: Label-Run Encoder\<close>

lemma bindE_Inr [simp]: "bindE (Inr x) f = f x"
  by (simp add: bindE_def)

lemma bindE_Inl [simp]: "bindE (Inl x) f = Inl x"
  by (simp add: bindE_def)

lemma read_local_Some [simp]: "read_local (Some n) = Inr n"
  by (simp add: read_local_def)

lemma runs_str_push_masked:
  "runs_str decode (push_masked k (push_tokens ts rs)) = marker (int k) @ runs_str decode (push_tokens ts rs)"
  by (cases "(ts, rs)" rule: push_tokens.cases) (simp_all add: runs_str_def)

lemma runs_str_push_tokens:
  "runs_str decode (push_tokens ts (push_masked k rs)) = decode ts @ runs_str decode (push_masked k rs)"
  by (cases "(k, rs)" rule: push_masked.cases) (simp_all add: runs_str_def)

lemma push_masked_twice: "push_masked k (push_masked j rs) = push_masked (k + j) rs"
  by (cases "(j, rs)" rule: push_masked.cases) (simp_all add: add.assoc)

lemma push_tokens_twice: "push_tokens ts (push_tokens us rs) = push_tokens (ts @ us) rs"
  by (cases "(us, rs)" rule: push_tokens.cases) simp_all

lemma slice_Suc: "a \<le> i \<Longrightarrow> i < length xs \<Longrightarrow> slice xs a (Suc i) = slice xs a i @ [xs ! i]"
  by (simp add: slice_def Suc_diff_le take_Suc_conv_app_nth)

lemma labels_loop_from:
  assumes "n = length labels"
  shows "1 \<le> i \<Longrightarrow> i \<le> n \<Longrightarrow>
    (labels ! (i - 1) = - 100 \<longrightarrow> (\<forall>s0 < i. s st = Some s0 \<longrightarrow>
       bindE (for_loop (labels_body decode labels) [i..<n] st) (labels_finish decode labels)
         = Inr (labels_str st @ runs_str decode (push_masked (i - s0) (label_runs (drop i labels))))))
    \<and> (labels ! (i - 1) \<noteq> - 100 \<longrightarrow> (\<forall>e0 < i. e st = Some e0 \<longrightarrow>
       bindE (for_loop (labels_body decode labels) [i..<n] st) (labels_finish decode labels)
         = Inr (labels_str st @ runs_str decode (push_tokens (slice labels e0 i) (label_runs (drop i labels))))))"
proof (induction "n - i" arbitrary: i st)
  case 0
  then have i: "i = n" by simp
  have ne: "labels \<noteq> []" using 0 assms by auto
  have last: "last labels = labels ! (i - 1)"
    using ne i assms by (simp add: last_conv_nth)
  show ?case using i assms last
    by (auto simp: labels_finish_def runs_str_def slice_def of_nat_diff)
next
  case (Suc k)
  then have lt: "i < n" by simp
  have upt: "[i..<n] = i # [Suc i..<n]" using lt by (simp add: upt_rec)
  have drop: "drop i labels = labels ! i # drop (Suc i) labels"
    using lt assms by (simp add: Cons_nth_drop_Suc)
  have k: "k = n - Suc i" using Suc by simp
  have IH: "(labels ! i = - 100 \<longrightarrow> (\<forall>s0 < Suc i. s st' = Some s0 \<longrightarrow>
       bindE (for_loop (labels_body decode labels) [Suc i..<n] st') (labels_finish decode labels)
         = Inr (labels_str st' @ runs_str decode (push_masked (Suc i - s0) (label_runs (drop (Suc i) labels))))))
    \<and> (labels ! i \<noteq> - 100 \<longrightarrow> (\<forall>e0 < Suc i. e st' = Some e0 \<longrightarrow>
       bindE (for_loop (labels_body decode labels) [Suc i..<n] st') (labels_finish decode labels)
         = Inr (labels_str st' @ runs_str decode (push_tokens (slice labels e0 (Suc i)) (label_runs (drop (Suc i) labels))))))" for st'
    using Suc.hyps(1)[OF k, of st'] lt by simp
  have i0: "i \<noteq> 0" using Suc.prems by simp
  show ?case
  proof (intro conjI impI allI)
    fix s0 assume prev: "labels ! (i - 1) = - 100" and s0: "s0 < i" "s st = Some s0"
    show "bindE (for_loop (labels_body decode labels) [i..<n] st) (labels_finish decode labels)
         = Inr (labels_str st @ runs_str decode (push_masked (i - s0) (label_runs (drop i labels))))"
    proof (cases "labels ! i = - 100")
      case True
      have body: "labels_body decode labels i st = Inr st"
        using True prev i0 by (simp add: labels_body_def)
      have "Suc i - s0 = (i - s0) + 1" using s0 by simp
      then show ?thesis
        using IH[of st] True s0 body by (simp add: upt drop push_masked_twice)
    next
      case False
      define st' where "st' = st\<lparr>e := Some i, labels_str := labels_str st @ marker (int (i - s0))\<rparr>"
      have "int i - int s0 = int (i - s0)" using s0 by simp
      then have body: "labels_body decode labels i st = Inr st'"
        using False prev i0 s0 by (simp add: labels_body_def st'_def)
      have sl: "slice labels i (Suc i) = [labels ! i]"
        using lt assms by (simp add: slice_def take_Suc_conv_app_nth drop)
      have st': "e st' = Some i" "labels_str st' = labels_str st @ marker (int (i - s0))"
        by (simp_all add: st'_def)
      have "bindE (for_loop (labels_body decode labels) [Suc i..<n] st') (labels_finish decode labels)
         = Inr (labels_str st' @ runs_str decode (push_tokens [labels ! i] (label_runs (drop (Suc i) labels))))"
        using IH[of st'] False st' sl by simp
      then show ?thesis
        using False body st' by (simp add: upt drop runs_str_push_masked)
    qed
  next
    fix e0 assume prev: "labels ! (i - 1) \<noteq> - 100" and e0: "e0 < i" "e st = Some e0"
    show "bindE (for_loop (labels_body decode labels) [i..<n] st) (labels_finish decode labels)
         = Inr (labels_str st @ runs_str decode (push_tokens (slice labels e0 i) (label_runs (drop i labels))))"
    proof (cases "labels ! i = - 100")
      case True
      define st' where "st' = st\<lparr>s := Some i, labels_str := labels_str st @ decode (slice labels e0 i)\<rparr>"
      have body: "labels_body decode labels i st = Inr st'"
        using True prev i0 e0 by (simp add: labels_body_def st'_def)
      show ?thesis
        using IH[of st'] True body
        by (simp add: upt drop st'_def runs_str_push_tokens)
    next
      case False
      have body: "labels_body decode labels i st = Inr st"
        using False prev i0 by (simp add: labels_body_def)
      have "slice labels e0 (Suc i) = slice labels e0 i @ [labels ! i]"
        using e0 lt assms by (simp add: slice_Suc)
      then show ?thesis
        using IH[of st] False e0 body by (simp add: upt drop push_tokens_twice)
    qed
  qed
qed

lemma get_labels_str_eq: "get_labels_str decode labels = Inr (runs_str decode (label_runs labels))"
proof (cases labels)
  case Nil
  then show ?thesis by (simp add: get_labels_str_def runs_str_def)
next
  case (Cons x xs)
  define n where "n = length labels"
  define init where "init = \<lparr>s = None, e = None, labels_str = ''''\<rparr>"
  have n: "1 \<le> n" and upt: "[0..<n] = 0 # [1..<n]"
    using Cons by (simp_all add: n_def upt_rec)
  have d: "drop 1 labels = xs" and x: "labels ! 0 = x" using Cons by simp_all
  have unfold: "get_labels_str decode labels
      = bindE (for_loop (labels_body decode labels) [0..<n] init) (labels_finish decode labels)"
    using Cons by (simp add: get_labels_str_def n_def init_def)
  show ?thesis
  proof (cases "x = - 100")
    case True
    define st where "st = init\<lparr>s := Some 0\<rparr>"
    have body: "labels_body decode labels 0 init = Inr st"
      using True x by (simp add: labels_body_def st_def)
    have st: "s st = Some 0" "labels_str st = ''''" by (simp_all add: st_def init_def)
    have "bindE (for_loop (labels_body decode labels) [1..<n] st) (labels_finish decode labels)
         = Inr (labels_str st @ runs_str decode (push_masked (1 - 0) (label_runs (drop 1 labels))))"
      using labels_loop_from[OF n_def, of 1 st decode] n True x st by simp
    then have "bindE (for_loop (labels_body decode labels) [1..<n] st) (labels_finish decode labels)
         = Inr (runs_str decode (label_runs labels))"
      using st d True Cons by simp
    then show ?thesis
      by (simp only: unfold upt for_loop.simps body bindE_Inr)
  next
    case False
    define st where "st = init\<lparr>e := Some 0\<rparr>"
    have body: "labels_body decode labels 0 init = Inr st"
      using False x by (simp add: labels_body_def st_def)
    have st: "e st = Some 0" "labels_str st = ''''" by (simp_all add: st_def init_def)
    have sl: "slice labels 0 1 = [x]" using Cons by (simp add: slice_def)
    have "bindE (for_loop (labels_body decode labels) [1..<n] st) (labels_finish decode labels)
         = Inr (labels_str st @ runs_str decode (push_tokens (slice labels 0 1) (label_runs (drop 1 labels))))"
      using labels_loop_from[OF n_def, of 1 st decode] n False x st by simp
    then have "bindE (for_loop (labels_body decode labels) [1..<n] st) (labels_finish decode labels)
         = Inr (runs_str decode (label_runs labels))"
      using st d sl False Cons by simp
    then show ?thesis
      by (simp only: unfold upt for_loop.simps body bindE_Inr)
  qed
qed

lemma run_labels_push_masked:
  "concat (map run_labels (push_masked k rs)) = replicate k (- 100) @ concat (map run_labels rs)"
  by (cases "(k, rs)" rule: push_masked.cases) (simp_all add: replicate_add)

lemma run_labels_push_tokens:
  "concat (map run_labels (push_tokens ts rs)) = ts @ concat (map run_labels rs)"
  by (cases "(ts, rs)" rule: push_tokens.cases) simp_all

lemma label_runs_labels: "concat (map run_labels (label_runs labels)) = labels"
  by (induction labels) (simp_all add: run_labels_push_masked run_labels_push_tokens)

lemma alternating_push_masked:
  "alternating rs \<Longrightarrow> 0 < k \<Longrightarrow> alternating (push_masked k rs)"
  by (induction rs rule: alternating.induct) (auto elim: is_masked.elims run_ok.elims)

lemma alternating_push_tokens:
  "alternating rs \<Longrightarrow> ts \<noteq> [] \<Longrightarrow> - 100 \<notin> set ts \<Longrightarrow> alternating (push_tokens ts rs)"
  by (induction rs rule: alternating.induct) (auto elim: is_masked.elims run_ok.elims)

lemma label_runs_alternating: "alternating (label_runs labels)"
  by (induction labels) (simp_all add: alternating_push_masked alternating_push_tokens)

lemma label_runs_all_masked: "label_runs (replicate (Suc n) (- 100)) = [Masked (Suc n)]"
  by (induction n) simp_all

lemma label_runs_no_mask: "labels \<noteq> [] \<Longrightarrow> - 100 \<notin> set labels \<Longrightarrow> label_runs labels = [Tokens labels]"
  by (induction labels rule: list_nonempty_induct) auto

text \<open>
  Claim C6. For every label sequence and every decode function, \<open>_get_labels_str\<close>
  returns (without raising) the rendering, in order, of the maximal contiguous runs of the
  sequence: the decoded text of each non-masked run and the marker \<open>[-100 * N]\<close> for each
  masked run of length \<open>N\<close>. The runs expand back to the input, none is empty and
  neighbouring runs differ in kind, so runs at the start and at the end are included. An
  all-masked input of length \<open>N > 0\<close> gives the single marker, and the empty input gives
  the empty string.
\<close>

theorem get_labels_str_run_length:
  "get_labels_str decode labels = Inr (runs_str decode (label_runs labels))
   \<and> concat (map run_labels (label_runs labels)) = labels
   \<and> alternating (label_runs labels)
   \<and> get_labels_str decode (replicate (Suc n) (- 100))
       = Inr (''[-100 * '' @ str_int (int (Suc n)) @ '']'')
   \<and> get_labels_str decode [] = Inr ''''"
proof -
  have "get_labels_str decode (replicate (Suc n) (- 100)) = Inr (runs_str decode [Masked (Suc n)])"
    by (simp only: get_labels_str_eq label_runs_all_masked)
  then have "get_labels_str decode (replicate (Suc n) (- 100))
       = Inr (''[-100 * '' @ str_int (int (Suc n)) @ '']'')"
    by (simp add: runs_str_def marker_def)
  moreover have "get_labels_str decode [] = Inr ''''"
    by (simp add: get_labels_str_def)
  ultimately show ?thesis
    using get_labels_str_eq label_runs_labels label_runs_alternating by blast
qed

theorem get_labels_str_run_length_witness:
  "get_labels_str demo_decode [- 100, - 100, 1000, 2000, 3000, - 100, - 100, 4000, 5000, 6000]
     = Inr ''[-100 * 2]<1000><2000><3000>[-100 * 2]<4000><5000><6000>''
   \<and> get_labels_str demo_decode [- 100, 7, - 100] = Inr ''[-100 * 1]<7>[-100 * 1]''
   \<and> get_labels_str demo_decode (replicate (Suc 2) (- 100)) = Inr ''[-100 * 3]''"
  using get_labels_str_run_length [of demo_decode "[- 100, - 100, 1000, 2000, 3000, - 100, - 100, 4000, 5000, 6000]" 2]
    get_labels_str_run_length [of demo_decode "[- 100, 7, - 100]" 2]
  by (simp add: runs_str_def marker_def str_int_def demo_decode_def)

section \<open>Verification: Context-Window Manager\<close>

lemma upper_bound_spec:
  assumes "lo \<le> hi" "\<forall>i. lo < i \<and> i \<le> hi \<longrightarrow> cond i = Inr (p i)"
  shows "\<exists>k. upper_bound lo hi cond = Inr k \<and> lo \<le> k \<and> k \<le> hi
           \<and> (k = lo \<or> p k) \<and> (k = hi \<or> \<not> p (Suc k))"
  using assms
proof (induction lo hi cond rule: upper_bound.induct)
  case (1 lo hi cond)
  let ?mid = "(lo + hi + 1) div 2"
  show ?case
  proof (cases "lo < hi")
    case False
    then have "upper_bound lo hi cond = Inr lo" by (subst upper_bound.simps) simp
    moreover have "lo = hi" using False "1.prems"(1) by simp
    ultimately show ?thesis by simp
  next
    case True
    then have mid: "lo < ?mid" "?mid \<le> hi" by simp_all
    then have c: "cond ?mid = Inr (p ?mid)" using "1.prems"(2) by blast
    show ?thesis
    proof (cases "p ?mid")
      case pm: True
      have p2: "\<forall>i. ?mid < i \<and> i \<le> hi \<longrightarrow> cond i = Inr (p i)"
        using mid "1.prems"(2) by auto
      obtain k where k: "upper_bound ?mid hi cond = Inr k" "?mid \<le> k" "k \<le> hi"
           "k = ?mid \<or> p k" "k = hi \<or> \<not> p (Suc k)"
        using "1.IH"(1) [OF True c pm mid(2) p2] by blast
      have "upper_bound lo hi cond = upper_bound ?mid hi cond"
        using True c pm by (subst upper_bound.simps) simp
      then show ?thesis using k mid pm by auto
    next
      case npm: False
      have p1: "lo \<le> ?mid - 1" using mid by simp
      have p2: "\<forall>i. lo < i \<and> i \<le> ?mid - 1 \<longrightarrow> cond i = Inr (p i)"
        using mid "1.prems"(2) by auto
      obtain k where k: "upper_bound lo (?mid - 1) cond = Inr k" "lo \<le> k" "k \<le> ?mid - 1"
           "k = lo \<or> p k" "k = ?mid - 1 \<or> \<not> p (Suc k)"
        using "1.IH"(2) [OF True c npm p1 p2] by blast
      have "upper_bound lo hi cond = upper_bound lo (?mid - 1) cond"
        using True c npm by (subst upper_bound.simps) simp
      moreover have "k = hi \<or> \<not> p (Suc k)"
      proof (cases "k = ?mid - 1")
        case True
        then have "Suc k = ?mid" using mid by simp
        then show ?thesis using npm by simp
      next
        case False
        then show ?thesis using k(5) by simp
      qed
      moreover have "k \<le> hi" using k(3) mid by simp
      ultimately show ?thesis using k by auto
    qed
  qed
qed

lemma last_turns_last_turns:
  assumes "j \<le> k"
  shows "last_turns (last_turns h k) j = last_turns h j"
proof -
  have "length h - (length h - k + j) + (length h - k) = length h - j"
    using assms by arith
  then show ?thesis by (simp add: last_turns_def)
qed

lemma length_last_turns: "k \<le> length h \<Longrightarrow> length (last_turns h k) = k"
  by (simp add: last_turns_def)

lemma limit_history_length_spec:
  fixes template :: Template
  defines "len \<equiv> (\<lambda>h q k. encoded_length template q (last_turns h k))"
  shows "\<exists>k \<le> length h.
      limit_history_length template q (Some h) L = Inr (take (length h - k) h, last_turns h k)
      \<and> (k = 0 \<or> len h q k \<le> L) \<and> (k = length h \<or> L < len h q (Suc k))"
proof -
  let ?cond = "\<lambda>mid. bindE (compute_token_length template q h mid) (\<lambda>l. Inr (int l \<le> L))"
  have "\<forall>i. 0 < i \<and> i \<le> length h \<longrightarrow> ?cond i = Inr (len h q i \<le> L)"
    by (simp add: compute_token_length_def len_def encoded_length_def)
  from upper_bound_spec [OF _ this]
  obtain k where k: "upper_bound 0 (length h) ?cond = Inr k" "k \<le> length h"
      "k = 0 \<or> len h q k \<le> L" "k = length h \<or> \<not> len h q (Suc k) \<le> L"
    by auto
  have "limit_history_length template q (Some h) L = Inr (take (length h - k) h, last_turns h k)"
    using k(1) by (simp add: limit_history_length_def last_turns_def)
  then show ?thesis using k by auto
qed

lemma demo_template_length:
  "length (demo_template q (xs @ ys)) = length (demo_template q xs) + length (demo_template q ys) - length q"
  by (simp add: demo_template_def)

lemma demo_template_nondecreasing: "nondecreasing demo_template q h"
  unfolding nondecreasing_def
proof (intro allI impI)
  fix i j assume ij: "i \<le> j \<and> j \<le> length h"
  have "last_turns h j = take (j - i) (last_turns h j) @ last_turns h i"
  proof -
    have "length h - j + (j - i) = length h - i" using ij by arith
    then have "drop (j - i) (last_turns h j) = last_turns h i"
      by (simp add: last_turns_def add.commute)
    then show ?thesis by (metis append_take_drop_id)
  qed
  then obtain pre where "last_turns h j = pre @ last_turns h i" ..
  then show "encoded_length demo_template q (last_turns h i)
          \<le> encoded_length demo_template q (last_turns h j)"
    by (simp add: encoded_length_def demo_template_def)
qed

lemma demo_limit_12:
  "limit_history_length demo_template ''hi'' (Some [(''a'', ''b''), (''cc'', ''dd''), (''e'', ''f'')]) 12
     = Inr ([(''a'', ''b'')], [(''cc'', ''dd''), (''e'', ''f'')])"
  by (simp add: limit_history_length_def upper_bound.simps compute_token_length_def
      last_turns_def demo_template_def)

lemma demo_limit_1:
  "limit_history_length demo_template ''hi'' (Some [(''a'', ''b'')]) 1 = Inr ([(''a'', ''b'')], [])"
  by (simp add: limit_history_length_def upper_bound.simps compute_token_length_def
      last_turns_def demo_template_def)

text \<open>
  Claim C1, as amended. Under the precondition that the encoded length does not decrease
  when the suffix grows, \<open>limit_history_length\<close> returns (without raising) a pair
  \<open>(old_history, history)\<close> that splits \<open>H\<close>, where \<open>history\<close> is the longest suffix
  whose encoding fits: every longer suffix, and in particular the one with one more turn,
  exceeds \<open>L\<close>. The encoding of \<open>history\<close> itself is at most \<open>L\<close> unless even the
  encoding without any history exceeds \<open>L\<close>; then \<open>history\<close> is empty, since the
  zero-history encoding is never measured.
\<close>

theorem limit_history_length_maximal:
  assumes "nondecreasing template query H"
  shows "\<exists>old kept. limit_history_length template query (Some H) L = Inr (old, kept)
     \<and> old @ kept = H
     \<and> (encoded_length template query kept \<le> L
          \<or> kept = [] \<and> L < encoded_length template query [])
     \<and> (\<forall>j. length kept < j \<and> j \<le> length H
            \<longrightarrow> L < encoded_length template query (last_turns H j))
     \<and> (old = [] \<or> L < encoded_length template query (last old # kept))"
proof -
  let ?len = "\<lambda>k. encoded_length template query (last_turns H k)"
  obtain k where k: "k \<le> length H"
      "limit_history_length template query (Some H) L = Inr (take (length H - k) H, last_turns H k)"
      "k = 0 \<or> ?len k \<le> L" "k = length H \<or> L < ?len (Suc k)"
    using limit_history_length_spec [of H template query L] by blast
  let ?old = "take (length H - k) H" and ?kept = "last_turns H k"
  have len_kept: "length ?kept = k" using k(1) by (rule length_last_turns)
  have app: "?old @ ?kept = H" by (simp add: last_turns_def)
  have fits: "?len k \<le> L \<or> ?kept = [] \<and> L < encoded_length template query []"
  proof (cases "?len k \<le> L")
    case False
    then have "k = 0" using k(3) by blast
    then show ?thesis using False by (simp add: last_turns_def)
  qed simp
  have above: "L < ?len j" if "k < j" "j \<le> length H" for j
  proof -
    have "Suc k \<le> j" "k \<noteq> length H" using that by simp_all
    then have "?len (Suc k) \<le> ?len j" "L < ?len (Suc k)"
      using assms that(2) k(4) by (simp_all add: nondecreasing_def)
    then show ?thesis by simp
  qed
  have next_one: "?old = [] \<or> L < encoded_length template query (last ?old # ?kept)"
  proof (cases "k = length H")
    case True
    then show ?thesis by simp
  next
    case False
    then have lt: "k < length H" using k(1) by simp
    have ne: "?old \<noteq> []"
    proof
      assume "?old = []"
      then have "length ?old = 0" by (simp only: list.size)
      then show False using lt by simp
    qed
    have "last ?old = ?old ! (length ?old - 1)"
      using ne by (rule last_conv_nth)
    also have "\<dots> = H ! (length H - Suc k)"
      using lt by simp
    finally have "last ?old = H ! (length H - Suc k)" .
    moreover have "Suc (length H - Suc k) = length H - k" using lt by simp
    moreover have "H ! (length H - Suc k) # drop (Suc (length H - Suc k)) H = drop (length H - Suc k) H"
      using lt by (intro Cons_nth_drop_Suc) simp
    ultimately have "last ?old # ?kept = last_turns H (Suc k)"
      by (simp add: last_turns_def)
    then show ?thesis using above [of "Suc k"] lt ne by simp
  qed
  show ?thesis
    using k(2) app fits above next_one len_kept by (intro exI [of _ ?old] exI [of _ ?kept]) simp
qed

theorem limit_history_length_maximal_witness:
  "nondecreasing demo_template ''hi'' [(''a'', ''b''), (''cc'', ''dd''), (''e'', ''f'')]
   \<and> limit_history_length demo_template ''hi'' (Some [(''a'', ''b''), (''cc'', ''dd''), (''e'', ''f'')]) 12
       = Inr ([(''a'', ''b'')], [(''cc'', ''dd''), (''e'', ''f'')])
   \<and> encoded_length demo_template ''hi'' [(''cc'', ''dd''), (''e'', ''f'')] \<le> 12
   \<and> 12 < encoded_length demo_template ''hi'' [(''a'', ''b''), (''cc'', ''dd''), (''e'', ''f'')]"
  using limit_history_length_maximal [OF demo_template_nondecreasing, of "''hi''" "[(''a'', ''b''), (''cc'', ''dd''), (''e'', ''f'')]" 12]
    demo_limit_12 demo_template_nondecreasing [of "''hi''" "[(''a'', ''b''), (''cc'', ''dd''), (''e'', ''f'')]"]
  by (auto simp: encoded_length_def demo_template_def)

text \<open>
  Claim C1 as stated fails when the query alone does not fit: with one turn in the
  history and \<open>L = 1\<close> the precondition holds, the empty suffix is returned, and its
  encoded length is 2.
\<close>

theorem limit_history_length_zero_history_counterexample:
  "nondecreasing demo_template ''hi'' [(''a'', ''b'')]
   \<and> limit_history_length demo_template ''hi'' (Some [(''a'', ''b'')]) 1 = Inr ([(''a'', ''b'')], [])
   \<and> \<not> encoded_length demo_template ''hi'' [] \<le> 1"
  using demo_template_nondecreasing [of "''hi''" "[(''a'', ''b'')]"] demo_limit_1
  by (simp add: encoded_length_def demo_template_def)

text \<open>
  Claim C7. Under the same precondition, \<open>limit_history_length\<close> returns a pair
  \<open>(old_history, kept)\<close>, and calling it again on \<open>kept\<close> with the same query and limit
  returns \<open>([], kept)\<close>: the kept suffix is unchanged and nothing more is discarded.
\<close>

theorem limit_history_length_idempotent:
  assumes "nondecreasing template query (case H of None \<Rightarrow> [] | Some h \<Rightarrow> h)"
  shows "\<exists>old kept. limit_history_length template query H L = Inr (old, kept)
     \<and> limit_history_length template query (Some kept) L = Inr ([], kept)"
proof -
  define h where "h = (case H of None \<Rightarrow> [] | Some h \<Rightarrow> h)"
  let ?len = "\<lambda>k. encoded_length template query (last_turns h k)"
  have same: "limit_history_length template query H L = limit_history_length template query (Some h) L"
    by (simp add: limit_history_length_def h_def)
  obtain k where k: "k \<le> length h"
      "limit_history_length template query (Some h) L = Inr (take (length h - k) h, last_turns h k)"
      "k = 0 \<or> ?len k \<le> L"
    using limit_history_length_spec [of h template query L] by blast
  let ?kept = "last_turns h k"
  have len_kept: "length ?kept = k" using k(1) by (rule length_last_turns)
  obtain k' where k': "k' \<le> k"
      "limit_history_length template query (Some ?kept) L = Inr (take (k - k') ?kept, last_turns ?kept k')"
      "k' = k \<or> L < encoded_length template query (last_turns ?kept (Suc k'))"
    using limit_history_length_spec [of ?kept template query L] len_kept by auto
  have "k' = k"
  proof (rule ccontr)
    assume "k' \<noteq> k"
    then have lt: "Suc k' \<le> k" and big: "L < encoded_length template query (last_turns ?kept (Suc k'))"
      using k' by simp_all
    have "last_turns ?kept (Suc k') = last_turns h (Suc k')"
      using lt by (rule last_turns_last_turns)
    moreover have "?len (Suc k') \<le> ?len k"
      using assms lt k(1) by (simp add: nondecreasing_def h_def)
    moreover have "?len k \<le> L" using k(3) lt by auto
    ultimately show False using big by simp
  qed
  then have "limit_history_length template query (Some ?kept) L = Inr ([], ?kept)"
    using k'(2) len_kept by (simp add: last_turns_def)
  then show ?thesis using same k(2) by simp
qed

theorem limit_history_length_idempotent_witness:
  "nondecreasing demo_template ''hi'' (case Some [(''a'', ''b''), (''cc'', ''dd''), (''e'', ''f'')] of None \<Rightarrow> [] | Some h \<Rightarrow> h)
   \<and> limit_history_length demo_template ''hi'' (Some [(''a'', ''b''), (''cc'', ''dd''), (''e'', ''f'')]) 12
       = Inr ([(''a'', ''b'')], [(''cc'', ''dd''), (''e'', ''f'')])
   \<and> limit_history_length demo_template ''hi'' (Some [(''cc'', ''dd''), (''e'', ''f'')]) 12
       = Inr ([], [(''cc'', ''dd''), (''e'', ''f'')])"
proof -
  have mono: "nondecreasing demo_template ''hi'' (case Some [(''a'', ''b''), (''cc'', ''dd''), (''e'', ''f'')] of None \<Rightarrow> [] | Some h \<Rightarrow> h)"
    by (rule demo_template_nondecreasing)
  show ?thesis
    using limit_history_length_idempotent [OF mono, of 12] demo_limit_12 mono by auto
qed

section \<open>Verification: configuration resolution\<close>

lemma getattr_Some [simp]: "attrs args k = Some v \<Longrightarrow> getattr args k = Inr v"
  by (simp add: getattr_def)

lemma getattr_setattr [simp]:
  "getattr (setattr args k v) k' = (if k' = k then Inr v else getattr args k')"
  by (simp add: getattr_def setattr_def)

lemma attrs_setattr [simp]: "attrs (setattr args k v) = (attrs args)(k \<mapsto> v)"
  by (simp add: setattr_def)

lemma class_of_setattr [simp]: "class_of (setattr args k v) = class_of args"
  by (simp add: setattr_def)

lemma dtype_lookup_three:
  "dict_lookup dtype_mapping_reversed v = Inr t \<Longrightarrow> t = float16 \<or> t = bfloat16 \<or> t = float32"
  by (cases v) (auto simp: dtype_mapping_reversed_def dtype_mapping_def split: if_splits)

lemma import_key_result:
  assumes "key \<in> set kept_keys \<longrightarrow> attrs args key \<noteq> None"
  shows "import_key snapshot key args
     = Inr (if key \<in> set kept_keys \<and> attrs args key \<noteq> Some PNone then args
            else setattr args key (dict_get snapshot key))"
  using assms by (auto simp: import_key_def)

lemma import_loop_result:
  assumes "distinct keys" "\<forall>k \<in> set keys. k \<in> set kept_keys \<longrightarrow> attrs args k \<noteq> None"
  shows "\<exists>args'. for_loop (import_key snapshot) keys args = Inr args'
     \<and> class_of args' = class_of args
     \<and> (\<forall>k. attrs args' k =
            (if k \<in> set keys \<and> \<not> (k \<in> set kept_keys \<and> attrs args k \<noteq> Some PNone)
             then Some (dict_get snapshot k) else attrs args k))"
  using assms
proof (induction keys arbitrary: args)
  case Nil
  then show ?case by simp
next
  case (Cons key keys)
  define args1 where "args1 = (if key \<in> set kept_keys \<and> attrs args key \<noteq> Some PNone then args
            else setattr args key (dict_get snapshot key))"
  have step: "import_key snapshot key args = Inr args1"
    using Cons.prems(2) by (simp add: import_key_result args1_def)
  have other: "attrs args1 k = attrs args k" if "k \<noteq> key" for k
    using that by (simp add: args1_def)
  have this_key: "attrs args1 key = (if key \<in> set kept_keys \<and> attrs args key \<noteq> Some PNone
       then attrs args key else Some (dict_get snapshot key))"
    by (simp add: args1_def)
  have cls: "class_of args1 = class_of args" by (simp add: args1_def)
  have notin: "key \<notin> set keys" and d: "distinct keys" using Cons.prems(1) by simp_all
  have pre: "\<forall>k \<in> set keys. k \<in> set kept_keys \<longrightarrow> attrs args1 k \<noteq> None"
  proof (intro ballI impI)
    fix k assume k: "k \<in> set keys" "k \<in> set kept_keys"
    then have "k \<noteq> key" using notin by blast
    then have "attrs args1 k = attrs args k" by (rule other)
    then show "attrs args1 k \<noteq> None" using Cons.prems(2) k by simp
  qed
  obtain args' where a: "for_loop (import_key snapshot) keys args1 = Inr args'"
     "class_of args' = class_of args1"
     "\<forall>k. attrs args' k =
            (if k \<in> set keys \<and> \<not> (k \<in> set kept_keys \<and> attrs args1 k \<noteq> Some PNone)
             then Some (dict_get snapshot k) else attrs args1 k)"
    using Cons.IH [OF d pre] by blast
  have "attrs args' k =
            (if k \<in> set (key # keys) \<and> \<not> (k \<in> set kept_keys \<and> attrs args k \<noteq> Some PNone)
             then Some (dict_get snapshot k) else attrs args k)" for k
  proof (cases "k = key")
    case True
    then show ?thesis using a(3) notin this_key by auto
  next
    case False
    then show ?thesis using a(3) other by auto
  qed
  then show ?case using step a(1,2) cls by simp
qed

lemma distinct_imported_keys: "distinct (imported_keys v)"
  by (simp add: imported_keys_def)

lemma load_from_ckpt_dir_result:
  assumes "attrs args ''ckpt_dir'' = Some (PStr dir)"
    and "path_exists env (posix_join dir ''sft_args.json'')"
    and "json_load env (posix_join dir ''sft_args.json'') = Inr snapshot"
    and "attrs args ''eval_human'' = Some eval_human"
    and "\<forall>k \<in> set kept_keys. attrs args k \<noteq> None"
  shows "\<exists>args'. load_from_ckpt_dir env args = Inr (args', [])
     \<and> class_of args' = class_of args
     \<and> (\<forall>k. attrs args' k =
            (if k \<in> set (imported_keys eval_human)
                \<and> \<not> (k \<in> set kept_keys \<and> attrs args k \<noteq> Some PNone)
             then Some (dict_get snapshot k) else attrs args k))"
proof -
  have "\<forall>k \<in> set (imported_keys eval_human). k \<in> set kept_keys \<longrightarrow> attrs args k \<noteq> None"
    using assms(5) by blast
  from import_loop_result [OF distinct_imported_keys this, of snapshot]
  obtain args' where "for_loop (import_key snapshot) (imported_keys eval_human) args = Inr args'"
     "class_of args' = class_of args"
     "\<forall>k. attrs args' k =
            (if k \<in> set (imported_keys eval_human)
                \<and> \<not> (k \<in> set kept_keys \<and> attrs args k \<noteq> Some PNone)
             then Some (dict_get snapshot k) else attrs args k)"
    by blast
  then show ?thesis using assms(1-4) by (simp add: load_from_ckpt_dir_def)
qed


lemma InferArguments_init_kwarg:
  "map_of kwargs k = Some v \<Longrightarrow> attrs (InferArguments_init kwargs) k = Some v"
  by (simp add: InferArguments_init_def)

lemma InferArguments_init_default:
  "map_of kwargs k = None \<Longrightarrow>
   attrs (InferArguments_init kwargs) k = map_of InferArguments_defaults k"
  by (simp add: InferArguments_init_def map_add_def)

lemma InferArguments_defaults_kept:
  "\<forall>k \<in> set kept_keys. map_of InferArguments_defaults k \<noteq> None"
  by (simp add: kept_keys_def InferArguments_defaults_def)

lemma InferArguments_init_kept:
  "\<forall>k \<in> set kept_keys. attrs (InferArguments_init kwargs) k \<noteq> None"
proof
  fix k assume "k \<in> set kept_keys"
  then have "map_of InferArguments_defaults k \<noteq> None"
    using InferArguments_defaults_kept by blast
  then show "attrs (InferArguments_init kwargs) k \<noteq> None"
    by (cases "map_of kwargs k") (simp_all add: InferArguments_init_kwarg InferArguments_init_default)
qed

lemma InferArguments_defaults_eval_human:
  "map_of InferArguments_defaults ''eval_human'' = Some (PBool False)"
  by (simp add: InferArguments_defaults_def)

lemma InferArguments_defaults_bnb:
  "map_of InferArguments_defaults ''bnb_4bit_comp_dtype'' = Some (PStr ''AUTO'')"
  by (simp add: InferArguments_defaults_def)

lemma demo_missing_path: "posix_join ''/work/empty'' ''sft_args.json'' = ''/work/empty/sft_args.json''"
  by (simp add: posix_join_def startswith_def)

lemma demo_snapshot_path: "posix_join ''/work/ckpt'' ''sft_args.json'' = ''/work/ckpt/sft_args.json''"
  by (simp add: posix_join_def startswith_def)

text \<open>
  Claim C2, as amended. For every quantization-bit value other than 4 and 8, so also for
  every value outside \<open>{0, 4, 8}\<close>, \<open>select_bnb\<close> raises nothing on account of the bit
  width: its result is that of the look-up of the compute-dtype name alone, and when the
  name resolves it returns that dtype with both flags false, exactly as for 0.
\<close>

theorem select_bnb_other_bits:
  assumes "attrs args ''quantization_bit'' = Some q"
    and "\<not> py_eq_int q 4" and "\<not> py_eq_int q 8"
    and "attrs args ''bnb_4bit_comp_dtype'' = Some c" and "attrs args ''dtype'' = Some d"
  shows "select_bnb env args
     = bindE (dict_lookup dtype_mapping_reversed (if py_eq_str c ''AUTO'' then d else c)) (\<lambda>t.
         Inr ((t, False, False),
              if py_eq_str c ''AUTO'' then setattr args ''bnb_4bit_comp_dtype'' d else args))"
proof -
  define name where "name = (if py_eq_str c ''AUTO'' then d else c)"
  define args1 where "args1 = (if py_eq_str c ''AUTO'' then setattr args ''bnb_4bit_comp_dtype'' d else args)"
  have q: "getattr args1 ''quantization_bit'' = Inr q"
    and n: "getattr args1 ''bnb_4bit_comp_dtype'' = Inr name"
    using assms(1,4) by (simp_all add: args1_def name_def)
  have first: "bindE (if py_eq_str c ''AUTO''
            then bindE (getattr args ''dtype'') (\<lambda>dtype.
                 Inr (setattr args ''bnb_4bit_comp_dtype'' dtype))
            else Inr args) f = f args1" for f :: "obj \<Rightarrow> error + ((torch_dtype \<times> bool \<times> bool) \<times> obj)"
    using assms(5) by (simp add: args1_def)
  have unfold: "select_bnb env args = bindE (dict_lookup dtype_mapping_reversed name) (\<lambda>t.
     if t \<noteq> float16 \<and> t \<noteq> bfloat16 \<and> t \<noteq> float32
     then Inl (AssertionError []) else Inr ((t, False, False), args1))"
    unfolding select_bnb_def
    by (simp only: getattr_Some [OF assms(4)] bindE_Inr first q n assms(2,3) if_False)
  show ?thesis
  proof (cases "dict_lookup dtype_mapping_reversed name")
    case (Inl err)
    then show ?thesis by (simp add: unfold name_def [symmetric])
  next
    case (Inr t)
    then have "t = float16 \<or> t = bfloat16 \<or> t = float32" by (rule dtype_lookup_three)
    then show ?thesis using Inr by (auto simp add: unfold name_def [symmetric] args1_def [symmetric])
  qed
qed

theorem select_bnb_other_bits_witness:
  "attrs (InferArguments_init [(''quantization_bit'', PInt 3), (''dtype'', PStr ''bf16'')])
       ''quantization_bit'' = Some (PInt 3)
   \<and> \<not> py_eq_int (PInt 3) 4 \<and> \<not> py_eq_int (PInt 3) 8
   \<and> select_bnb demo_env
        (InferArguments_init [(''quantization_bit'', PInt 3), (''dtype'', PStr ''bf16'')])
      = Inr ((bfloat16, False, False),
             setattr (InferArguments_init [(''quantization_bit'', PInt 3), (''dtype'', PStr ''bf16'')])
               ''bnb_4bit_comp_dtype'' (PStr ''bf16''))"
proof -
  let ?args = "InferArguments_init [(''quantization_bit'', PInt 3), (''dtype'', PStr ''bf16'')]"
  have h1: "attrs ?args ''quantization_bit'' = Some (PInt 3)"
    and h5: "attrs ?args ''dtype'' = Some (PStr ''bf16'')"
    by (simp_all add: InferArguments_init_kwarg)
  have h4: "attrs ?args ''bnb_4bit_comp_dtype'' = Some (PStr ''AUTO'')"
    by (simp add: InferArguments_init_default InferArguments_defaults_bnb)
  have h2: "\<not> py_eq_int (PInt 3) 4" and h3: "\<not> py_eq_int (PInt 3) 8" by simp_all
  have look: "dict_lookup dtype_mapping_reversed (PStr ''bf16'') = Inr bfloat16"
    by (simp add: dtype_mapping_reversed_def dtype_mapping_def)
  show ?thesis
    using select_bnb_other_bits [OF h1 h2 h3 h4 h5, of demo_env] h1 look
    by (simp add: py_eq_str_def)
qed

text \<open>
  Claim C2 as stated fails: with the bit width 16, which is outside \<open>{0, 4, 8}\<close>,
  \<open>select_bnb\<close> returns normally.
\<close>

theorem select_bnb_invalid_bits_counterexample:
  "(16 :: int) \<notin> {0, 4, 8}
   \<and> select_bnb demo_env
        (InferArguments_init [(''quantization_bit'', PInt 16), (''dtype'', PStr ''fp16'')])
      = Inr ((float16, False, False),
             setattr (InferArguments_init [(''quantization_bit'', PInt 16), (''dtype'', PStr ''fp16'')])
               ''bnb_4bit_comp_dtype'' (PStr ''fp16''))"
proof -
  let ?args = "InferArguments_init [(''quantization_bit'', PInt 16), (''dtype'', PStr ''fp16'')]"
  have g: "getattr ?args ''quantization_bit'' = Inr (PInt 16)"
    "getattr ?args ''dtype'' = Inr (PStr ''fp16'')"
    "getattr ?args ''bnb_4bit_comp_dtype'' = Inr (PStr ''AUTO'')"
    by (simp_all add: InferArguments_init_kwarg InferArguments_init_default
        InferArguments_defaults_bnb)
  have look: "map_of dtype_mapping_reversed ''fp16'' = Some float16"
    by (simp add: dtype_mapping_reversed_def dtype_mapping_def)
  show ?thesis
    by (simp add: select_bnb_def g look py_eq_str_def)
qed

text \<open>
  Claim C5. For every configuration whose \<open>model_type\<close> and \<open>model_id_or_path\<close> are both
  set (neither is \<open>None\<close>), \<open>set_model_type\<close> fails at its first statement, the
  assertion that one of the two is \<open>None\<close>: this is the failure the specification calls
  \<open>AmbiguousModelSpecError\<close>.
\<close>

theorem set_model_type_both:
  assumes "attrs args ''model_type'' = Some model_type" and "model_type \<noteq> PNone"
    and "attrs args ''model_id_or_path'' = Some path" and "path \<noteq> PNone"
  shows "set_model_type env MODEL_MAPPING args = Inl (AssertionError [])"
  using assms by (simp add: set_model_type_def)

theorem set_model_type_both_witness:
  "set_model_type demo_env demo_registry
     (InferArguments_init [(''model_type'', PStr ''qwen-7b-chat''),
                           (''model_id_or_path'', PStr ''qwen/Qwen-7B-Chat'')])
   = Inl (AssertionError [])"
  using set_model_type_both [of "InferArguments_init [(''model_type'', PStr ''qwen-7b-chat''),
                           (''model_id_or_path'', PStr ''qwen/Qwen-7B-Chat'')]"
      "PStr ''qwen-7b-chat''" "PStr ''qwen/Qwen-7B-Chat''" demo_env demo_registry]
  by (simp add: InferArguments_init_kwarg)

text \<open>
  Claim C9. For every configuration whose \<open>ckpt_dir\<close> is a directory path under which
  no file \<open>sft_args.json\<close> exists, \<open>load_from_ckpt_dir\<close> raises nothing, logs that the
  file was not found, and returns the configuration as it was.
\<close>

theorem load_from_ckpt_dir_missing:
  assumes "attrs args ''ckpt_dir'' = Some (PStr dir)"
    and "\<not> path_exists env (posix_join dir ''sft_args.json'')"
  shows "load_from_ckpt_dir env args
     = Inr (args, [(INFO, [Val (PStr (posix_join dir ''sft_args.json'')), Lit '' not found''])])"
  using assms by (simp add: load_from_ckpt_dir_def)

theorem load_from_ckpt_dir_missing_witness:
  "\<not> path_exists demo_env (posix_join ''/work/empty'' ''sft_args.json'')
   \<and> load_from_ckpt_dir demo_env (InferArguments_init [(''ckpt_dir'', PStr ''/work/empty'')])
     = Inr (InferArguments_init [(''ckpt_dir'', PStr ''/work/empty'')],
            [(INFO, [Val (PStr ''/work/empty/sft_args.json''), Lit '' not found''])])"
  using load_from_ckpt_dir_missing [of "InferArguments_init [(''ckpt_dir'', PStr ''/work/empty'')]"
      "''/work/empty''" demo_env]
  by (simp add: InferArguments_init_kwarg demo_missing_path demo_env_def)

text \<open>
  Claim C4. For every configuration and every existing snapshot, \<open>load_from_ckpt_dir\<close>
  returns a configuration in which each of \<open>model_cache_dir\<close>, \<open>dataset\<close>,
  \<open>custom_train_dataset_path\<close> and \<open>custom_val_dataset_path\<close> keeps its value when
  that value is not \<open>None\<close>; every other field of the allow-list has the snapshot's value
  when the snapshot defines it; and when \<open>eval_human\<close> is true the six dataset-related
  fields are as they were.
\<close>

theorem load_from_ckpt_dir_precedence:
  assumes "attrs args ''ckpt_dir'' = Some (PStr dir)"
    and "path_exists env (posix_join dir ''sft_args.json'')"
    and "json_load env (posix_join dir ''sft_args.json'') = Inr snapshot"
    and "attrs args ''eval_human'' = Some eval_human"
    and "\<forall>k \<in> set kept_keys. attrs args k \<noteq> None"
  shows "\<exists>args'. load_from_ckpt_dir env args = Inr (args', [])
     \<and> (\<forall>k \<in> set kept_keys. attrs args k \<noteq> Some PNone \<longrightarrow> attrs args' k = attrs args k)
     \<and> (\<forall>k \<in> set (imported_keys eval_human). k \<notin> set kept_keys \<longrightarrow>
           (\<forall>v. snapshot k = Some v \<longrightarrow> attrs args' k = Some v))
     \<and> (truthy eval_human \<longrightarrow>
           (\<forall>k \<in> set [''dataset'', ''dataset_seed'', ''dataset_test_ratio'',
                        ''check_dataset_strategy'', ''custom_train_dataset_path'',
                        ''custom_val_dataset_path'']. attrs args' k = attrs args k))"
proof -
  obtain args' where r: "load_from_ckpt_dir env args = Inr (args', [])"
     "\<forall>k. attrs args' k =
            (if k \<in> set (imported_keys eval_human)
                \<and> \<not> (k \<in> set kept_keys \<and> attrs args k \<noteq> Some PNone)
             then Some (dict_get snapshot k) else attrs args k)"
    using load_from_ckpt_dir_result [OF assms] by blast
  have kept: "\<forall>k \<in> set kept_keys. attrs args k \<noteq> Some PNone \<longrightarrow> attrs args' k = attrs args k"
    using r(2) by simp
  have other: "\<forall>k \<in> set (imported_keys eval_human). k \<notin> set kept_keys \<longrightarrow>
           (\<forall>v. snapshot k = Some v \<longrightarrow> attrs args' k = Some v)"
    using r(2) by (simp add: dict_get_def)
  have human: "\<forall>k \<in> set [''dataset'', ''dataset_seed'', ''dataset_test_ratio'',
                        ''check_dataset_strategy'', ''custom_train_dataset_path'',
                        ''custom_val_dataset_path'']. attrs args' k = attrs args k"
    if "truthy eval_human"
    using r(2) that by (simp add: imported_keys_def)
  show ?thesis using r(1) kept other human by blast
qed

theorem load_from_ckpt_dir_precedence_witness:
  "\<exists>args'. load_from_ckpt_dir demo_env
       (InferArguments_init [(''ckpt_dir'', PStr ''/work/ckpt''),
                             (''dataset'', PList [PStr ''my-data'']),
                             (''system'', PStr ''hello'')]) = Inr (args', [])
     \<and> attrs args' ''dataset'' = Some (PList [PStr ''my-data''])
     \<and> attrs args' ''system'' = Some (PStr ''be brief'')
     \<and> attrs args' ''dataset_seed'' = Some (PInt 7)"
proof -
  let ?args = "InferArguments_init [(''ckpt_dir'', PStr ''/work/ckpt''),
                             (''dataset'', PList [PStr ''my-data'']),
                             (''system'', PStr ''hello'')]"
  have h1: "attrs ?args ''ckpt_dir'' = Some (PStr ''/work/ckpt'')"
    and ds: "attrs ?args ''dataset'' = Some (PList [PStr ''my-data''])"
    by (simp_all add: InferArguments_init_kwarg)
  have h4: "attrs ?args ''eval_human'' = Some (PBool False)"
    by (simp add: InferArguments_init_default InferArguments_defaults_eval_human)
  have h5: "\<forall>k \<in> set kept_keys. attrs ?args k \<noteq> None"
    by (rule InferArguments_init_kept)
  have h2: "path_exists demo_env (posix_join ''/work/ckpt'' ''sft_args.json'')"
    and h3: "json_load demo_env (posix_join ''/work/ckpt'' ''sft_args.json'') = Inr demo_snapshot"
    by (simp_all add: demo_snapshot_path demo_env_def)
  have keys: "''dataset'' \<in> set kept_keys"
    "''system'' \<in> set (imported_keys (PBool False))" "''system'' \<notin> set kept_keys"
    "''dataset_seed'' \<in> set (imported_keys (PBool False))" "''dataset_seed'' \<notin> set kept_keys"
    by (simp_all add: kept_keys_def imported_keys_def)
  have snap: "demo_snapshot ''system'' = Some (PStr ''be brief'')"
    "demo_snapshot ''dataset_seed'' = Some (PInt 7)"
    by (simp_all add: demo_snapshot_def)
  obtain args' where r: "load_from_ckpt_dir demo_env ?args = Inr (args', [])"
      "\<forall>k \<in> set kept_keys. attrs ?args k \<noteq> Some PNone \<longrightarrow> attrs args' k = attrs ?args k"
      "\<forall>k \<in> set (imported_keys (PBool False)). k \<notin> set kept_keys \<longrightarrow>
           (\<forall>v. demo_snapshot k = Some v \<longrightarrow> attrs args' k = Some v)"
    using load_from_ckpt_dir_precedence [OF h1 h2 h3 h4 h5] by blast
  have "attrs args' ''dataset'' = attrs ?args ''dataset''"
    using r(2) keys(1) ds by simp
  moreover have "attrs args' ''system'' = Some (PStr ''be brief'')"
    using r(3) keys(2,3) snap(1) by blast
  moreover have "attrs args' ''dataset_seed'' = Some (PInt 7)"
    using r(3) keys(4,5) snap(2) by blast
  ultimately show ?thesis using r(1) ds by auto
qed

text \<open>
  Claim C10. When the snapshot exists but has no entry for a field of the allow-list that
  is not one of the four kept fields, \<open>load_from_ckpt_dir\<close> sets that field to \<open>None\<close>,
  whatever value it had: a value the user gave for \<open>dtype\<close> or \<open>sft_type\<close> is replaced
  by \<open>None\<close>.
\<close>

theorem load_from_ckpt_dir_missing_key:
  assumes "attrs args ''ckpt_dir'' = Some (PStr dir)"
    and "path_exists env (posix_join dir ''sft_args.json'')"
    and "json_load env (posix_join dir ''sft_args.json'') = Inr snapshot"
    and "attrs args ''eval_human'' = Some eval_human"
    and "\<forall>k \<in> set kept_keys. attrs args k \<noteq> None"
    and "key \<in> set (imported_keys eval_human)" and "key \<notin> set kept_keys"
    and "snapshot key = None"
  shows "\<exists>args'. load_from_ckpt_dir env args = Inr (args', []) \<and> attrs args' key = Some PNone"
proof -
  obtain args' where r: "load_from_ckpt_dir env args = Inr (args', [])"
     "\<forall>k. attrs args' k =
            (if k \<in> set (imported_keys eval_human)
                \<and> \<not> (k \<in> set kept_keys \<and> attrs args k \<noteq> Some PNone)
             then Some (dict_get snapshot k) else attrs args k)"
    using load_from_ckpt_dir_result [OF assms(1-5)] by blast
  have "attrs args' key = Some (dict_get snapshot key)"
    using r(2) assms(6,7) by simp
  then show ?thesis using r(1) assms(8) by (simp add: dict_get_def)
qed

theorem load_from_ckpt_dir_missing_key_witness:
  "attrs (InferArguments_init [(''ckpt_dir'', PStr ''/work/ckpt''), (''dtype'', PStr ''fp16'')])
       ''dtype'' = Some (PStr ''fp16'')
   \<and> demo_snapshot ''dtype'' = None
   \<and> (\<exists>args'. load_from_ckpt_dir demo_env
          (InferArguments_init [(''ckpt_dir'', PStr ''/work/ckpt''), (''dtype'', PStr ''fp16'')])
            = Inr (args', [])
        \<and> attrs args' ''dtype'' = Some PNone)"
proof -
  let ?args = "InferArguments_init [(''ckpt_dir'', PStr ''/work/ckpt''), (''dtype'', PStr ''fp16'')]"
  have h1: "attrs ?args ''ckpt_dir'' = Some (PStr ''/work/ckpt'')"
    and dt: "attrs ?args ''dtype'' = Some (PStr ''fp16'')"
    by (simp_all add: InferArguments_init_kwarg)
  have h4: "attrs ?args ''eval_human'' = Some (PBool False)"
    by (simp add: InferArguments_init_default InferArguments_defaults_eval_human)
  have h5: "\<forall>k \<in> set kept_keys. attrs ?args k \<noteq> None"
    by (rule InferArguments_init_kept)
  have h2: "path_exists demo_env (posix_join ''/work/ckpt'' ''sft_args.json'')"
    and h3: "json_load demo_env (posix_join ''/work/ckpt'' ''sft_args.json'') = Inr demo_snapshot"
    by (simp_all add: demo_snapshot_path demo_env_def)
  have h6: "''dtype'' \<in> set (imported_keys (PBool False))" and h7: "''dtype'' \<notin> set kept_keys"
    and h8: "demo_snapshot ''dtype'' = None"
    by (simp_all add: kept_keys_def imported_keys_def demo_snapshot_def)
  show ?thesis
    using load_from_ckpt_dir_missing_key [OF h1 h2 h3 h4 h5 h6 h7 h8] dt h8 by simp
qed

section \<open>Verification: Path and Compatibility Normalizer\<close>

lemma split_on_no_sep: "\<forall>w \<in> set (split_on sep str). sep \<notin> set w"
  by (induction str) (auto split: list.splits)

lemma split_on_nonempty: "split_on sep str \<noteq> []"
  by (induction str) (auto split: list.splits)

lemma split_on_single: "sep \<notin> set w \<Longrightarrow> split_on sep w = [w]"
  by (induction w) auto

lemma split_on_append: "sep \<notin> set w \<Longrightarrow> split_on sep (w @ sep # rest) = w # split_on sep rest"
  by (induction w) auto

lemma split_on_sep_join:
  "cs \<noteq> [] \<Longrightarrow> \<forall>c \<in> set cs. CHR ''/'' \<notin> set c \<Longrightarrow> split_on (CHR ''/'') (sep_join cs) = cs"
proof (induction cs rule: sep_join.induct)
  case 1
  then show ?case by simp
next
  case (2 c)
  then show ?case by (simp add: split_on_single)
next
  case (3 c d ds)
  then show ?case by (simp add: split_on_append)
qed

lemma normpath_step_clean:
  assumes "0 < k" "\<forall>c \<in> set acc. clean c" "CHR ''/'' \<notin> set w"
  shows "\<forall>c \<in> set (normpath_step k acc w). clean c"
proof -
  have "last acc \<noteq> ''..''" if "acc \<noteq> []"
    using assms(2) that by (metis clean_def last_in_set)
  then show ?thesis
    using assms by (auto simp: normpath_step_def clean_def dest: in_set_butlastD)
qed

lemma foldl_normpath_step_clean:
  "0 < k \<Longrightarrow> \<forall>c \<in> set acc. clean c \<Longrightarrow> \<forall>w \<in> set ws. CHR ''/'' \<notin> set w
   \<Longrightarrow> \<forall>c \<in> set (foldl (normpath_step k) acc ws). clean c"
proof (induction ws arbitrary: acc)
  case Nil
  then show ?case by simp
next
  case (Cons w ws)
  have "\<forall>c \<in> set (normpath_step k acc w). clean c"
    using Cons.prems by (intro normpath_step_clean) simp_all
  then show ?case using Cons by simp
qed

lemma foldl_normpath_step_append:
  "\<forall>c \<in> set cs. clean c \<Longrightarrow> foldl (normpath_step k) acc cs = acc @ cs"
  by (induction cs arbitrary: acc) (simp_all add: normpath_step_def clean_def)

lemma sep_join_Cons: "\<exists>rest. sep_join (c # cs) = c @ rest"
  by (cases cs) simp_all

lemma sep_join_clean_head:
  assumes "\<forall>c \<in> set cs. clean c"
  shows "\<not> startswith (sep_join cs) ''/''"
proof (cases cs)
  case Nil
  then show ?thesis by (simp add: startswith_def)
next
  case (Cons c ds)
  then have "clean c" using assms by simp
  then obtain x xs where c: "c = x # xs" "x \<noteq> CHR ''/''"
    by (cases c) (auto simp: clean_def)
  obtain rest where "sep_join (c # ds) = c @ rest" using sep_join_Cons by blast
  then show ?thesis using Cons c by (simp add: startswith_def)
qed

lemma foldl_split_sep_join:
  assumes "\<forall>c \<in> set cs. clean c"
  shows "foldl (normpath_step k) [] (split_on (CHR ''/'') (sep_join cs)) = cs"
proof (cases "cs = []")
  case True
  then show ?thesis by (simp add: normpath_step_def)
next
  case False
  then have "split_on (CHR ''/'') (sep_join cs) = cs"
    using assms by (intro split_on_sep_join) (auto simp: clean_def)
  then show ?thesis using assms by (simp add: foldl_normpath_step_append)
qed

lemma normpath_fixed:
  assumes "\<forall>c \<in> set cs. clean c" "k = 1 \<or> k = 2"
  shows "normpath (replicate k (CHR ''/'') @ sep_join cs) = replicate k (CHR ''/'') @ sep_join cs"
proof -
  let ?r = "replicate k (CHR ''/'') @ sep_join cs"
  have nohead: "\<not> startswith (sep_join cs) ''/''" using assms(1) by (rule sep_join_clean_head)
  have init: "(if startswith ?r ''/''
      then (if startswith ?r ''//'' \<and> \<not> startswith ?r ''///'' then 2 else 1) else 0) = k"
    using assms(2) nohead
    by (cases "sep_join cs") (auto simp: startswith_def numeral_2_eq_2)
  have split: "split_on (CHR ''/'') ?r = replicate k [] @ split_on (CHR ''/'') (sep_join cs)"
    using assms(2) by (auto simp: numeral_2_eq_2)
  have "foldl (normpath_step k) [] (replicate k [] @ ws) = foldl (normpath_step k) [] ws" for ws
    using assms(2) by (auto simp: numeral_2_eq_2 normpath_step_def)
  then have "foldl (normpath_step k) [] (split_on (CHR ''/'') ?r) = cs"
    using split assms(1) by (simp add: foldl_split_sep_join)
  moreover have "?r \<noteq> []" using assms(2) by auto
  ultimately show ?thesis
    unfolding normpath_def by (simp only: init Let_def if_False)
qed

lemma normpath_absolute_form:
  assumes "startswith q ''/''"
  shows "\<exists>k cs. (k = 1 \<or> k = 2) \<and> (\<forall>c \<in> set cs. clean c)
           \<and> normpath q = replicate k (CHR ''/'') @ sep_join cs"
proof -
  define k :: nat where "k = (if startswith q ''//'' \<and> \<not> startswith q ''///'' then 2 else 1)"
  define cs where "cs = foldl (normpath_step k) [] (split_on (CHR ''/'') q)"
  have k: "k = 1 \<or> k = 2" by (simp add: k_def)
  have "q \<noteq> []" using assms by (auto simp: startswith_def)
  then have "normpath q = replicate k (CHR ''/'') @ sep_join cs"
    using assms k by (auto simp: normpath_def k_def cs_def Let_def)
  moreover have "\<forall>c \<in> set cs. clean c"
    unfolding cs_def using k split_on_no_sep [of "CHR ''/''" q]
    by (intro foldl_normpath_step_clean) auto
  ultimately show ?thesis using k by blast
qed

lemma normpath_idem:
  assumes "startswith q ''/''"
  shows "normpath (normpath q) = normpath q"
proof -
  obtain k cs where "k = 1 \<or> k = 2" "\<forall>c \<in> set cs. clean c"
      "normpath q = replicate k (CHR ''/'') @ sep_join cs"
    using normpath_absolute_form [OF assms] by blast
  then show ?thesis using normpath_fixed [of cs k] by simp
qed

lemma normpath_absolute:
  assumes "startswith q ''/''"
  shows "startswith (normpath q) ''/''"
proof -
  obtain k cs where "k = 1 \<or> k = 2"
      "normpath q = replicate k (CHR ''/'') @ sep_join cs"
    using normpath_absolute_form [OF assms] by blast
  then show ?thesis by (auto simp: startswith_def numeral_2_eq_2)
qed

lemma abspath_arg_absolute:
  assumes "startswith (cwd env) ''/''"
  shows "startswith (if \<not> startswith p ''/'' then posix_join (cwd env) p else p) ''/''"
  using assms by (cases "cwd env") (auto simp: posix_join_def startswith_def)

lemma abspath_absolute:
  "startswith (cwd env) ''/'' \<Longrightarrow> startswith (abspath env p) ''/''"
  unfolding abspath_def by (intro normpath_absolute abspath_arg_absolute)

lemma expanduser_absolute: "startswith p ''/'' \<Longrightarrow> expanduser env p = p"
  by (cases p) (auto simp: expanduser_def startswith_def)

lemma abspath_of_absolute: "startswith x ''/'' \<Longrightarrow> abspath env x = normpath x"
  by (simp add: abspath_def)

lemma abspath_expanduser_idem:
  assumes "startswith (cwd env) ''/''"
  shows "abspath env (expanduser env (abspath env (expanduser env p))) = abspath env (expanduser env p)"
proof -
  define x where "x = expanduser env p"
  define q where "q = (if \<not> startswith x ''/'' then posix_join (cwd env) x else x)"
  have q: "startswith q ''/''" unfolding q_def using assms by (rule abspath_arg_absolute)
  have ax: "abspath env x = normpath q" by (simp only: abspath_def q_def)
  have r: "startswith (abspath env x) ''/''" using assms by (rule abspath_absolute)
  have "expanduser env (abspath env x) = abspath env x"
    using r by (rule expanduser_absolute)
  then have "abspath env (expanduser env (abspath env x)) = abspath env (abspath env x)"
    by (simp only:)
  also have "\<dots> = normpath (abspath env x)" using r by (rule abspath_of_absolute)
  also have "\<dots> = normpath (normpath q)" by (simp only: ax)
  also have "\<dots> = normpath q" using q by (rule normpath_idem)
  also have "\<dots> = abspath env x" by (simp only: ax)
  finally show ?thesis by (simp only: x_def)
qed

end
